theory Spec2Isabelle
  imports Main "HOL-Library.Sublist"
begin

section \<open>The automation session\<close>

text \<open>
  The services drive a browser through Selenium. The browser is the environment of the
  code: it is modelled as a deterministic state machine over a document state \<open>'s\<close>,
  given by the functions of the record \<open>browser\<close>. A locator either denotes an element
  of the current document or nothing; a click, a page load and an option selection
  move the document to its next (settled) state. \<open>time.sleep\<close> and the polling inside
  \<open>WebDriverWait.until\<close> are not modelled: a wait looks at the settled document
  and raises \<open>TimeoutException\<close> when its condition does not hold there.
\<close>

datatype exn =
    TimeoutException
  | NoSuchElementException
  | StaleElementReferenceException
  | ElementNotInteractableException
  | UnexpectedTagNameException
  | WebDriverException
  | KeyError
  | TypeError
  | ValueError
  | NotImplementedError
  | FileNotFoundError
  | FileExistsError
  | PermissionError
  | OSError

datatype locator = XPath string | ClassName string

text \<open>
  What the code reads from a located element: its text, its \<open>class\<close> attribute
  (\<open>get_attribute\<close> returns a string or \<open>None\<close>), \<open>is_selected()\<close>, whether it is
  displayed and enabled (the conditions behind \<open>visibility_of_element_located\<close> and
  \<open>element_to_be_clickable\<close>), the texts of the cells found below it by
  \<open>.//thead//th\<close> and by \<open>.//tbody/tr\<close> then \<open>./td\<close>, and, for a \<open>select\<close>, the
  visible texts of its options (\<open>None\<close> for every other tag).
\<close>

record element =
  elem_text :: string
  class_attr :: "string option"
  selected :: bool
  displayed :: bool
  enabled :: bool
  thead_th :: "string list"
  tbody_tr :: "string list list"
  select_options :: "string list option"

record 's browser =
  locate :: "'s \<Rightarrow> locator \<Rightarrow> element option"
  after_click :: "locator \<Rightarrow> 's \<Rightarrow> 's"
  after_get :: "string \<Rightarrow> 's \<Rightarrow> exn + 's"
  after_select :: "locator \<Rightarrow> string \<Rightarrow> 's \<Rightarrow> 's"

text \<open>
  Records written by \<open>logging.warning\<close> and \<open>logging.error\<close>, one constructor per
  message of the source. Info-level records do not influence anything and are left out.
\<close>

datatype log_record =
    WarnElementXPath string
  | WarnParameterXPath string
  | ErrorClick
  | ErrorSelectData
  | ErrorSelectDate
  | ErrorDownloadClick
  | ErrorDownloadData
  | ErrorRenameNotFound
  | ErrorRenameExists
  | ErrorRenameUnexpected

text \<open>
  The state a run works on: the document, the clicks delivered to the browser so far
  (in order, by locator) and the log.
\<close>

record 's world =
  page :: 's
  clicks :: "locator list"
  logged :: "log_record list"

definition log_add :: "log_record \<Rightarrow> 's world \<Rightarrow> 's world" where
  "log_add r w = w\<lparr>logged := logged w @ [r]\<rparr>"

subsection \<open>Waits and element operations\<close>

definition until_presence :: "'s browser \<Rightarrow> locator \<Rightarrow> 's \<Rightarrow> exn + element" where
  "until_presence b loc s =
     (case locate b s loc of None \<Rightarrow> Inl TimeoutException | Some e \<Rightarrow> Inr e)"

definition until_visible :: "'s browser \<Rightarrow> locator \<Rightarrow> 's \<Rightarrow> exn + element" where
  "until_visible b loc s =
     (case locate b s loc of
        None \<Rightarrow> Inl TimeoutException
      | Some e \<Rightarrow> if displayed e then Inr e else Inl TimeoutException)"

definition until_clickable :: "'s browser \<Rightarrow> locator \<Rightarrow> 's \<Rightarrow> exn + element" where
  "until_clickable b loc s =
     (case locate b s loc of
        None \<Rightarrow> Inl TimeoutException
      | Some e \<Rightarrow> if displayed e \<and> enabled e then Inr e else Inl TimeoutException)"

definition find_element :: "'s browser \<Rightarrow> locator \<Rightarrow> 's \<Rightarrow> exn + element" where
  "find_element b loc s =
     (case locate b s loc of None \<Rightarrow> Inl NoSuchElementException | Some e \<Rightarrow> Inr e)"

text \<open>
  An element handle is identified with the locator that produced it. \<open>is_selected()\<close>
  and \<open>click()\<close> on a handle look it up in the current document; a handle whose element
  is gone raises \<open>StaleElementReferenceException\<close>, and a click on an element that is
  not displayed raises \<open>ElementNotInteractableException\<close>.
\<close>

definition is_selected :: "'s browser \<Rightarrow> locator \<Rightarrow> 's \<Rightarrow> exn + bool" where
  "is_selected b h s =
     (case locate b s h of
        None \<Rightarrow> Inl StaleElementReferenceException
      | Some e \<Rightarrow> Inr (selected e))"

definition click :: "'s browser \<Rightarrow> locator \<Rightarrow> 's world \<Rightarrow> (exn + unit) \<times> 's world" where
  "click b h w =
     (case locate b (page w) h of
        None \<Rightarrow> (Inl StaleElementReferenceException, w)
      | Some e \<Rightarrow>
          if displayed e
          then (Inr (), w\<lparr>page := after_click b h (page w), clicks := clicks w @ [h]\<rparr>)
          else (Inl ElementNotInteractableException, w))"

section \<open>DataSelectionService\<close>

subsection \<open>checked_click\<close>

text \<open>
  \<^verbatim>\<open>
  try:
      if hasattr(element, 'is_selected') and element.is_selected():
          return
      element.click()
  except Exception as e:
      logging.error("Error al hacer click en el elemento.", exc_info=True)
      raise
  \<close>
  Every Selenium \<open>WebElement\<close> has \<open>is_selected\<close>, so \<open>hasattr\<close> is true.
\<close>

definition checked_click :: "'s browser \<Rightarrow> locator \<Rightarrow> 's world \<Rightarrow> (exn + unit) \<times> 's world" where
  "checked_click b element w =
     (case is_selected b element (page w) of
        Inl e \<Rightarrow> (Inl e, log_add ErrorClick w)
      | Inr True \<Rightarrow> (Inr (), w)
      | Inr False \<Rightarrow>
          (case click b element w of
             (Inl e, w') \<Rightarrow> (Inl e, log_add ErrorClick w')
           | (Inr u, w') \<Rightarrow> (Inr (), w')))"

subsection \<open>Strings\<close>

text \<open>
  Python strings are modelled as lists of characters with code points below 256. In that
  range \<open>str.strip()\<close> removes the code points 9 to 13, 28 to 32, 133 (U+0085) and 160
  (U+00A0), the characters for which \<open>str.isspace()\<close> holds; \<open>\d\<close> matches the digits
  \<open>0\<close> to \<open>9\<close>; \<open>lower\<close> changes the letters \<open>A\<close> to \<open>Z\<close> and the letters of the
  code points 192 to 222 other than 215 (the multiplication sign), each to the letter 32
  code points higher.
  \<open>sub in text\<close> on strings is \<^const>\<open>sublist\<close> (a contiguous run).
\<close>

definition is_space :: "char \<Rightarrow> bool" where
  "is_space c =
     (let n = (of_char c :: nat) in
      (9 \<le> n \<and> n \<le> 13) \<or> (28 \<le> n \<and> n \<le> 32) \<or> n = 133 \<or> n = 160)"

definition strip :: "string \<Rightarrow> string" where
  "strip s = rev (dropWhile is_space (rev (dropWhile is_space s)))"

definition lower_char :: "char \<Rightarrow> char" where
  "lower_char c =
     (let n = (of_char c :: nat) in
      if (65 \<le> n \<and> n \<le> 90) \<or> (192 \<le> n \<and> n \<le> 222 \<and> n \<noteq> 215)
      then Char (digit0 c) (digit1 c) (digit2 c) (digit3 c) (digit4 c) True (digit6 c) (digit7 c)
      else c)"

definition lower :: "string \<Rightarrow> string" where
  "lower s = map lower_char s"

definition is_digit :: "char \<Rightarrow> bool" where
  "is_digit c = (let n = (of_char c :: nat) in 48 \<le> n \<and> n \<le> 57)"

text \<open>\<open>re.search(r'(\d{4})', s)\<close>: the leftmost run of four digits, if there is one.\<close>

fun search_d4 :: "string \<Rightarrow> string option" where
  "search_d4 (a # b # c # d # rest) =
     (if is_digit a \<and> is_digit b \<and> is_digit c \<and> is_digit d then Some [a, b, c, d]
      else search_d4 (b # c # d # rest))"
| "search_d4 s = None"

text \<open>\<open>int(...)\<close> of a string of digits.\<close>

definition int_of_digits :: "string \<Rightarrow> int" where
  "int_of_digits s = foldl (\<lambda>n c. 10 * n + (int (of_char c) - 48)) 0 s"

text \<open>\<open>str(n)\<close> for an integer, as the f-string of the day cell formats it.\<close>

fun digits_of_nat :: "nat \<Rightarrow> string" where
  "digits_of_nat n =
     (if n < 10 then [char_of (48 + n)]
      else digits_of_nat (n div 10) @ [char_of (48 + n mod 10)])"

declare digits_of_nat.simps [simp del]

definition str_of_int :: "int \<Rightarrow> string" where
  "str_of_int i = (if i < 0 then CHR ''-'' # digits_of_nat (nat (- i)) else digits_of_nat (nat i))"

subsection \<open>Configuration and service object\<close>

text \<open>\<open>DataSelectionConfig\<close>; the field \<open>x\<close> of the source is \<open>cfg_x\<close> here.\<close>

record data_selection_config =
  cfg_url_analysis :: string
  cfg_daily_button_xpath :: string
  cfg_date_picker_xpath :: string
  cfg_typology_select_xpath :: string
  cfg_next_button_xpath :: string
  cfg_confirm_button_xpath :: string
  cfg_table_xpath :: string
  cfg_pagination_next_xpath :: string

text \<open>
  The typology dictionary: category key, then \<open>'Elements'\<close> or \<open>'Parameters'\<close>, then
  the name, to an XPath.
\<close>

type_synonym typology = "string \<rightharpoonup> (string \<rightharpoonup> (string \<rightharpoonup> string))"

text \<open>The fields of \<open>self\<close>; \<open>elements or []\<close> and \<open>parameters or []\<close> are lists.\<close>

record data_selection_service =
  config :: data_selection_config
  typology_dict :: typology
  svc_day :: int
  svc_month :: string
  svc_year :: int
  elements :: "string list"
  parameters :: "string list"
  typology_key :: string

subsection \<open>Toggling elements and parameters\<close>

text \<open>
  \<^verbatim>\<open>
  if not self.elements:
      return
  for element_name in self.elements:
      xpath = self.typology_dict[self.typology_key]['Elements'].get(element_name)
      if not xpath:
          logging.warning(f"No se encontro el XPATH para el elemento '{element_name}'.")
          continue
      elem_checkbox = wait.until(EC.presence_of_element_located((By.XPATH, xpath)))
      self.checked_click(elem_checkbox)
      time.sleep(0.5)
  \<close>
  The subscripts \<open>[self.typology_key]\<close> and \<open>['Elements']\<close> raise \<open>KeyError\<close> on a
  missing key; \<open>.get\<close> returns \<open>None\<close>; \<open>not xpath\<close> holds for \<open>None\<close> and for the
  empty string.
\<close>

fun select_elements_loop ::
  "'s browser \<Rightarrow> data_selection_service \<Rightarrow> string list \<Rightarrow> 's world \<Rightarrow> (exn + unit) \<times> 's world" where
  "select_elements_loop b self [] w = (Inr (), w)"
| "select_elements_loop b self (element_name # rest) w =
     (case typology_dict self (typology_key self) of
        None \<Rightarrow> (Inl KeyError, w)
      | Some category \<Rightarrow>
          (case category ''Elements'' of
             None \<Rightarrow> (Inl KeyError, w)
           | Some table \<Rightarrow>
               (case table element_name of
                  None \<Rightarrow> select_elements_loop b self rest (log_add (WarnElementXPath element_name) w)
                | Some xpath \<Rightarrow>
                    if xpath = []
                    then select_elements_loop b self rest (log_add (WarnElementXPath element_name) w)
                    else
                      (case until_presence b (XPath xpath) (page w) of
                         Inl e \<Rightarrow> (Inl e, w)
                       | Inr elem_checkbox \<Rightarrow>
                           (case checked_click b (XPath xpath) w of
                              (Inl e, w') \<Rightarrow> (Inl e, w')
                            | (Inr u, w') \<Rightarrow> select_elements_loop b self rest w')))))"

definition select_elements ::
  "'s browser \<Rightarrow> data_selection_service \<Rightarrow> 's world \<Rightarrow> (exn + unit) \<times> 's world" where
  "select_elements b self w =
     (if elements self = [] then (Inr (), w)
      else select_elements_loop b self (elements self) w)"

text \<open>\<open>_select_parameters\<close> is the same code over \<open>self.parameters\<close> and \<open>['Parameters']\<close>.\<close>

fun select_parameters_loop ::
  "'s browser \<Rightarrow> data_selection_service \<Rightarrow> string list \<Rightarrow> 's world \<Rightarrow> (exn + unit) \<times> 's world" where
  "select_parameters_loop b self [] w = (Inr (), w)"
| "select_parameters_loop b self (param_name # rest) w =
     (case typology_dict self (typology_key self) of
        None \<Rightarrow> (Inl KeyError, w)
      | Some category \<Rightarrow>
          (case category ''Parameters'' of
             None \<Rightarrow> (Inl KeyError, w)
           | Some table \<Rightarrow>
               (case table param_name of
                  None \<Rightarrow> select_parameters_loop b self rest (log_add (WarnParameterXPath param_name) w)
                | Some xpath \<Rightarrow>
                    if xpath = []
                    then select_parameters_loop b self rest (log_add (WarnParameterXPath param_name) w)
                    else
                      (case until_presence b (XPath xpath) (page w) of
                         Inl e \<Rightarrow> (Inl e, w)
                       | Inr param_checkbox \<Rightarrow>
                           (case checked_click b (XPath xpath) w of
                              (Inl e, w') \<Rightarrow> (Inl e, w')
                            | (Inr u, w') \<Rightarrow> select_parameters_loop b self rest w')))))"

definition select_parameters ::
  "'s browser \<Rightarrow> data_selection_service \<Rightarrow> 's world \<Rightarrow> (exn + unit) \<times> 's world" where
  "select_parameters b self w =
     (if parameters self = [] then (Inr (), w)
      else select_parameters_loop b self (parameters self) w)"

subsection \<open>Paginated table extraction\<close>

text \<open>
  \<open>_extract_table(self, wait, pagination_next_xpath, table_xpath)\<close>, with the
  parameters in the order of the \<open>def\<close>.

  The headers are read once, before the loop:
  \<open>[header.text.strip() for header in header_elements if header.text.strip()]\<close>.
\<close>

definition table_headers :: "element \<Rightarrow> string list" where
  "table_headers table_element =
     map strip (filter (\<lambda>header. strip header \<noteq> []) (thead_th table_element))"

text \<open>
  The \<open>while True\<close> loop has no bound, so it is a partial function: \<open>None\<close> means that
  the loop never ends. Inside the \<open>try\<close>, every exception ends the loop: a missing
  control (\<open>find_element\<close> raises), a \<open>class\<close> attribute that is \<open>None\<close>
  (\<open>'disabled' in None\<close> raises \<open>TypeError\<close>) and a failing \<open>checked_click\<close>.
  The wait for the table stands outside the \<open>try\<close>: its \<open>TimeoutException\<close> leaves the
  method.
\<close>

partial_function (option) extract_table_loop ::
  "'s browser \<Rightarrow> string \<Rightarrow> string \<Rightarrow> 's world \<Rightarrow> string list list \<Rightarrow>
     ((exn + string list list) \<times> 's world) option" where
  "extract_table_loop b pagination_next_xpath table_xpath w data =
     (case until_presence b (XPath table_xpath) (page w) of
        Inl e \<Rightarrow> Some (Inl e, w)
      | Inr table_element \<Rightarrow>
          (let data' = data @ map (\<lambda>cells. map strip cells) (tbody_tr table_element) in
           case find_element b (XPath pagination_next_xpath) (page w) of
             Inl e \<Rightarrow> Some (Inr data', w)
           | Inr next_button \<Rightarrow>
               (case class_attr next_button of
                  None \<Rightarrow> Some (Inr data', w)
                | Some cls \<Rightarrow>
                    if sublist ''disabled'' cls then Some (Inr data', w)
                    else
                      (case checked_click b (XPath pagination_next_xpath) w of
                         (Inl e, w') \<Rightarrow> Some (Inr data', w')
                       | (Inr u, w') \<Rightarrow>
                           extract_table_loop b pagination_next_xpath table_xpath w' data'))))"

declare extract_table_loop.simps [code]

text \<open>
  \<open>pd.DataFrame(data, columns)\<close> for a list of rows that are lists. Without column names
  (\<open>columns=None\<close>) every list of rows is taken, and so is an empty list of rows with any
  column names. Otherwise pandas pads the rows to the width of the widest one, and the
  number of column names must be that width: if it is not, the constructor raises
  \<open>ValueError\<close> (\<open>"2 columns passed, passed data had 3 columns"\<close>). The frame is given by
  its column names and its rows.
\<close>

definition widest :: "string list list \<Rightarrow> nat" where
  "widest data = foldr (\<lambda>row n. max (length row) n) data 0"

definition pd_DataFrame ::
  "string list list \<Rightarrow> string list option \<Rightarrow> exn + string list option \<times> string list list" where
  "pd_DataFrame data columns =
     (case columns of
        None \<Rightarrow> Inr (None, data)
      | Some names \<Rightarrow>
          if data = [] \<or> widest data = length names then Inr (Some names, data)
          else Inl ValueError)"

text \<open>
  After the loop the source builds \<open>pd.DataFrame(data, columns=headers if headers else None)\<close>
  and writes it with \<open>to_excel\<close>. The write is taken to succeed (the file system takes the
  file); the method returns nothing, and the model returns the headers and the rows that
  went into the frame. An exception of the loop or of the frame leaves the method.
\<close>

definition extract_table ::
  "'s browser \<Rightarrow> string \<Rightarrow> string \<Rightarrow> 's world \<Rightarrow>
     ((exn + string list \<times> string list list) \<times> 's world) option" where
  "extract_table b pagination_next_xpath table_xpath w =
     (case until_presence b (XPath table_xpath) (page w) of
        Inl e \<Rightarrow> Some (Inl e, w)
      | Inr table_element \<Rightarrow>
          (let headers = table_headers table_element in
           case extract_table_loop b pagination_next_xpath table_xpath w [] of
             None \<Rightarrow> None
           | Some (Inl e, w') \<Rightarrow> Some (Inl e, w')
           | Some (Inr data, w') \<Rightarrow>
               (case pd_DataFrame data (if headers \<noteq> [] then Some headers else None) of
                  Inl e \<Rightarrow> Some (Inl e, w')
                | Inr df \<Rightarrow> Some (Inr (headers, data), w'))))"

section \<open>DatePickerUtil.select_date\<close>

text \<open>
  The two \<open>while\<close> loops of \<open>select_date\<close> have no bound; they are partial functions
  (\<open>None\<close>: the loop never ends). The year loop hands \<open>current_text\<close> on to the month
  loop. \<open>prev_button.click()\<close> is a plain click, not \<open>checked_click\<close>.
  \<^verbatim>\<open>
  while current_year != year:
      if current_year > year:
          prev_button = driver.find_element(By.XPATH, prev_button_xpath)
          prev_button.click()
      else:
          raise NotImplementedError("Falta implementar el boton 'next' para avanzar anos.")
      time.sleep(0.5)
      datepicker_switch = wait.until(EC.visibility_of_element_located((By.XPATH, datepicker_switch_xpath)))
      current_text = datepicker_switch.text.lower()
      match = re.search(r'(\d{4})', current_text)
      if match:
          current_year = int(match.group(1))
  \<close>
\<close>

partial_function (option) year_loop ::
  "'s browser \<Rightarrow> int \<Rightarrow> string \<Rightarrow> string \<Rightarrow> int \<Rightarrow> string \<Rightarrow> 's world \<Rightarrow>
     ((exn + string) \<times> 's world) option" where
  "year_loop b year datepicker_switch_xpath prev_button_xpath current_year current_text w =
     (if current_year \<noteq> year then
        (if current_year > year then
           (case find_element b (XPath prev_button_xpath) (page w) of
              Inl e \<Rightarrow> Some (Inl e, w)
            | Inr prev_button \<Rightarrow>
                (case click b (XPath prev_button_xpath) w of
                   (Inl e, w') \<Rightarrow> Some (Inl e, w')
                 | (Inr u, w') \<Rightarrow>
                     (case until_visible b (XPath datepicker_switch_xpath) (page w') of
                        Inl e \<Rightarrow> Some (Inl e, w')
                      | Inr datepicker_switch \<Rightarrow>
                          (let current_text' = lower (elem_text datepicker_switch) in
                           year_loop b year datepicker_switch_xpath prev_button_xpath
                             (case search_d4 current_text' of
                                Some g \<Rightarrow> int_of_digits g
                              | None \<Rightarrow> current_year)
                             current_text' w'))))
         else Some (Inl NotImplementedError, w))
      else Some (Inr current_text, w))"

declare year_loop.simps [code]

text \<open>
  \<^verbatim>\<open>
  while month.lower() not in current_text:
      prev_button = driver.find_element(By.XPATH, prev_button_xpath)
      prev_button.click()
      time.sleep(0.5)
      datepicker_switch = wait.until(EC.visibility_of_element_located((By.XPATH, datepicker_switch_xpath)))
      current_text = datepicker_switch.text.lower()
  \<close>
\<close>

partial_function (option) month_loop ::
  "'s browser \<Rightarrow> string \<Rightarrow> string \<Rightarrow> string \<Rightarrow> string \<Rightarrow> 's world \<Rightarrow>
     ((exn + unit) \<times> 's world) option" where
  "month_loop b month datepicker_switch_xpath prev_button_xpath current_text w =
     (if \<not> sublist (lower month) current_text then
        (case find_element b (XPath prev_button_xpath) (page w) of
           Inl e \<Rightarrow> Some (Inl e, w)
         | Inr prev_button \<Rightarrow>
             (case click b (XPath prev_button_xpath) w of
                (Inl e, w') \<Rightarrow> Some (Inl e, w')
              | (Inr u, w') \<Rightarrow>
                  (case until_visible b (XPath datepicker_switch_xpath) (page w') of
                     Inl e \<Rightarrow> Some (Inl e, w')
                   | Inr datepicker_switch \<Rightarrow>
                       month_loop b month datepicker_switch_xpath prev_button_xpath
                         (lower (elem_text datepicker_switch)) w')))
      else Some (Inr (), w))"

declare month_loop.simps [code]

text \<open>The f-string \<open>//td[@class="day" and text()="{day}"]\<close>.\<close>

definition day_xpath :: "int \<Rightarrow> string" where
  \<open>day_xpath day = ''//td[@class="day" and text()="'' @ str_of_int day @ ''"]''\<close>

text \<open>
  The body of the \<open>try\<close>: open the widget, read the header, align the year, align the
  month, click the day cell. \<open>wait_time\<close> only sets the length of the waits and is not a
  parameter of the model.
\<close>

definition select_date_body ::
  "'s browser \<Rightarrow> int \<Rightarrow> string \<Rightarrow> int \<Rightarrow> string \<Rightarrow> string \<Rightarrow> string \<Rightarrow> string \<Rightarrow> 's world \<Rightarrow>
     ((exn + unit) \<times> 's world) option" where
  "select_date_body b day month year input_datapicker_xpath datepicker_container_class_name
       datepicker_switch_xpath prev_button_xpath w =
     (case until_visible b (XPath input_datapicker_xpath) (page w) of
        Inl e \<Rightarrow> Some (Inl e, w)
      | Inr input \<Rightarrow>
          (case click b (XPath input_datapicker_xpath) w of
             (Inl e, w1) \<Rightarrow> Some (Inl e, w1)
           | (Inr u, w1) \<Rightarrow>
               (case until_visible b (ClassName datepicker_container_class_name) (page w1) of
                  Inl e \<Rightarrow> Some (Inl e, w1)
                | Inr container \<Rightarrow>
                    (case until_visible b (XPath datepicker_switch_xpath) (page w1) of
                       Inl e \<Rightarrow> Some (Inl e, w1)
                     | Inr datepicker_switch \<Rightarrow>
                         (let current_text = lower (elem_text datepicker_switch);
                              current_year =
                                (case search_d4 current_text of
                                   Some g \<Rightarrow> int_of_digits g
                                 | None \<Rightarrow> year)
                          in
                          case year_loop b year datepicker_switch_xpath prev_button_xpath
                                 current_year current_text w1 of
                            None \<Rightarrow> None
                          | Some (Inl e, w2) \<Rightarrow> Some (Inl e, w2)
                          | Some (Inr current_text', w2) \<Rightarrow>
                              (case month_loop b month datepicker_switch_xpath prev_button_xpath
                                      current_text' w2 of
                                 None \<Rightarrow> None
                               | Some (Inl e, w3) \<Rightarrow> Some (Inl e, w3)
                               | Some (Inr u, w3) \<Rightarrow>
                                   (case until_clickable b (XPath (day_xpath day)) (page w3) of
                                      Inl e \<Rightarrow> Some (Inl e, w3)
                                    | Inr day_element \<Rightarrow>
                                        Some (click b (XPath (day_xpath day)) w3))))))))"

text \<open>\<open>except Exception: logger.error(...); raise\<close> around the body.\<close>

definition select_date ::
  "'s browser \<Rightarrow> int \<Rightarrow> string \<Rightarrow> int \<Rightarrow> string \<Rightarrow> string \<Rightarrow> string \<Rightarrow> string \<Rightarrow> 's world \<Rightarrow>
     ((exn + unit) \<times> 's world) option" where
  "select_date b day month year input_datapicker_xpath datepicker_container_class_name
       datepicker_switch_xpath prev_button_xpath w =
     (case select_date_body b day month year input_datapicker_xpath
             datepicker_container_class_name datepicker_switch_xpath prev_button_xpath w of
        None \<Rightarrow> None
      | Some (Inl e, w') \<Rightarrow> Some (Inl e, log_add ErrorSelectDate w')
      | Some (Inr u, w') \<Rightarrow> Some (Inr (), w'))"

text \<open>The default arguments of \<open>select_date\<close>.\<close>

definition default_input_datapicker_xpath :: string where
  \<open>default_input_datapicker_xpath = ''//input[@class="form-control form-control-sm"]''\<close>

definition default_datepicker_container_class_name :: string where
  \<open>default_datepicker_container_class_name = ''datepicker-dropdown''\<close>

definition default_datepicker_switch_xpath :: string where
  \<open>default_datepicker_switch_xpath = ''//th[@class="datepicker-switch"]''\<close>

definition default_prev_button_xpath :: string where
  \<open>default_prev_button_xpath = ''//th[@class="prev"]''\<close>

section \<open>DataSelectionService.select_data\<close>

text \<open>
  Lines 103 to 130: load the page, click the daily-view button, select the date with
  the default locators of \<open>select_date\<close>, choose the typology in the \<open>select\<close> control.
  \<open>Select(element)\<close> raises \<open>UnexpectedTagNameException\<close> on another tag, and
  \<open>select_by_visible_text\<close> raises \<open>NoSuchElementException\<close> when no option has the text.
\<close>

definition select_data_setup ::
  "'s browser \<Rightarrow> data_selection_service \<Rightarrow> 's world \<Rightarrow> ((exn + unit) \<times> 's world) option" where
  "select_data_setup b self w =
     (case after_get b (cfg_url_analysis (config self)) (page w) of
        Inl e \<Rightarrow> Some (Inl e, w)
      | Inr s0 \<Rightarrow>
          (let w0 = w\<lparr>page := s0\<rparr> in
           case until_clickable b (XPath (cfg_daily_button_xpath (config self))) (page w0) of
             Inl e \<Rightarrow> Some (Inl e, w0)
           | Inr day_button \<Rightarrow>
               (case checked_click b (XPath (cfg_daily_button_xpath (config self))) w0 of
                  (Inl e, w1) \<Rightarrow> Some (Inl e, w1)
                | (Inr u, w1) \<Rightarrow>
                    (case select_date b (svc_day self) (svc_month self) (svc_year self)
                            default_input_datapicker_xpath default_datepicker_container_class_name
                            default_datepicker_switch_xpath default_prev_button_xpath w1 of
                       None \<Rightarrow> None
                     | Some (Inl e, w2) \<Rightarrow> Some (Inl e, w2)
                     | Some (Inr u, w2) \<Rightarrow>
                         (case until_presence b (XPath (cfg_typology_select_xpath (config self)))
                                 (page w2) of
                            Inl e \<Rightarrow> Some (Inl e, w2)
                          | Inr typology_element \<Rightarrow>
                              (case select_options typology_element of
                                 None \<Rightarrow> Some (Inl UnexpectedTagNameException, w2)
                               | Some texts \<Rightarrow>
                                   if typology_key self \<in> set texts
                                   then Some (Inr (),
                                          w2\<lparr>page := after_select b
                                                  (XPath (cfg_typology_select_xpath (config self)))
                                                  (typology_key self) (page w2)\<rparr>)
                                   else Some (Inl NoSuchElementException, w2)))))))"

text \<open>
  Lines 132 to 156. The call of line 145 is
  \<open>self._extract_table(wait, self.config.table_xpath, self.config.pagination_next_xpath)\<close>:
  the arguments are positional, so \<open>self.config.table_xpath\<close> is bound to the parameter
  \<open>pagination_next_xpath\<close> and \<open>self.config.pagination_next_xpath\<close> to \<open>table_xpath\<close>.
  The last step swallows every exception of the confirmation click. The source returns
  nothing; the model returns the table that was extracted. An exception of
  \<open>_extract_table\<close>, the \<open>ValueError\<close> of its frame among them, leaves the method
  before the confirmation click.
\<close>

definition select_data_body ::
  "'s browser \<Rightarrow> data_selection_service \<Rightarrow> 's world \<Rightarrow>
     ((exn + string list \<times> string list list) \<times> 's world) option" where
  "select_data_body b self w =
     (case select_data_setup b self w of
        None \<Rightarrow> None
      | Some (Inl e, w1) \<Rightarrow> Some (Inl e, w1)
      | Some (Inr u, w1) \<Rightarrow>
          (case select_elements b self w1 of
             (Inl e, w2) \<Rightarrow> Some (Inl e, w2)
           | (Inr u, w2) \<Rightarrow>
               (case select_parameters b self w2 of
                  (Inl e, w3) \<Rightarrow> Some (Inl e, w3)
                | (Inr u, w3) \<Rightarrow>
                    (case until_clickable b (XPath (cfg_next_button_xpath (config self))) (page w3) of
                       Inl e \<Rightarrow> Some (Inl e, w3)
                     | Inr next_button \<Rightarrow>
                         (case checked_click b (XPath (cfg_next_button_xpath (config self))) w3 of
                            (Inl e, w4) \<Rightarrow> Some (Inl e, w4)
                          | (Inr u, w4) \<Rightarrow>
                              (case extract_table b (cfg_table_xpath (config self))
                                      (cfg_pagination_next_xpath (config self)) w4 of
                                 None \<Rightarrow> None
                               | Some (Inl e, w5) \<Rightarrow> Some (Inl e, w5)
                               | Some (Inr extracted, w5) \<Rightarrow>
                                   (case until_clickable b
                                           (XPath (cfg_confirm_button_xpath (config self))) (page w5) of
                                      Inl e \<Rightarrow> Some (Inr extracted, w5)
                                    | Inr confirm_button \<Rightarrow>
                                        Some (Inr extracted,
                                          snd (checked_click b
                                                 (XPath (cfg_confirm_button_xpath (config self))) w5)))))))))"

definition select_data ::
  "'s browser \<Rightarrow> data_selection_service \<Rightarrow> 's world \<Rightarrow>
     ((exn + string list \<times> string list list) \<times> 's world) option" where
  "select_data b self w =
     (case select_data_body b self w of
        None \<Rightarrow> None
      | Some (Inl e, w') \<Rightarrow> Some (Inl e, log_add ErrorSelectData w')
      | Some (Inr extracted, w') \<Rightarrow> Some (Inr extracted, w'))"

section \<open>DownloadService\<close>

text \<open>\<open>DownloadConfig\<close>; \<open>wait_time\<close> only sets the length of the waits.\<close>

record download_config =
  table_check_xpath :: string
  download_button_xpath :: string
  default_filename :: string
  renamed_filename_pattern :: string
  download_directory :: "string option"
  max_download_wait :: int

text \<open>
  The operating system as the code sees it. The polling loop sleeps one second after
  every failed look, so the file system is observed once per value of \<open>elapsed\<close>:
  \<open>path_exists os n p\<close> is \<open>os.path.exists(p)\<close> and \<open>open_append os n p\<close> the outcome of
  \<open>open(p, 'ab')\<close> (\<open>None\<close>: opened) at the look made when \<open>elapsed = n\<close>.
  \<open>os_rename\<close> is the outcome of \<open>os.rename\<close>, \<open>strftime\<close> is \<open>time.strftime\<close>, and
  \<open>str_format pattern day month year\<close> is \<open>pattern.format(day=..., month=..., year=...)\<close>.
\<close>

record os_env =
  home :: string
  path_exists :: "nat \<Rightarrow> string \<Rightarrow> bool"
  open_append :: "nat \<Rightarrow> string \<Rightarrow> exn option"
  os_rename :: "string \<Rightarrow> string \<Rightarrow> exn option"
  strftime :: "string \<Rightarrow> string"
  str_format :: "string \<Rightarrow> string \<Rightarrow> string \<Rightarrow> string \<Rightarrow> exn + string"

text \<open>\<open>os.path.join\<close> of two components and \<open>os.path.isabs\<close> (POSIX).\<close>

definition path_join :: "string \<Rightarrow> string \<Rightarrow> string" where
  "path_join a p =
     (if prefix ''/'' p then p
      else if a = [] \<or> suffix ''/'' a then a @ p
      else a @ ''/'' @ p)"

definition isabs :: "string \<Rightarrow> bool" where
  "isabs p = prefix ''/'' p"

text \<open>The same method as in \<open>DataSelectionService\<close>, with its own log message.\<close>

definition download_checked_click ::
  "'s browser \<Rightarrow> locator \<Rightarrow> 's world \<Rightarrow> (exn + unit) \<times> 's world" where
  "download_checked_click b element w =
     (case is_selected b element (page w) of
        Inl e \<Rightarrow> (Inl e, log_add ErrorDownloadClick w)
      | Inr True \<Rightarrow> (Inr (), w)
      | Inr False \<Rightarrow>
          (case click b element w of
             (Inl e, w') \<Rightarrow> (Inl e, log_add ErrorDownloadClick w')
           | (Inr u, w') \<Rightarrow> (Inr (), w')))"

text \<open>
  \<^verbatim>\<open>
  elapsed = 0
  interval = 1
  while elapsed < timeout:
      if os.path.exists(full_path):
          try:
              with open(full_path, 'ab'):
                  pass
              return full_path
          except PermissionError:
              time.sleep(interval)
              elapsed += interval
      else:
          time.sleep(interval)
          elapsed += interval
  return None
  \<close>
  An exception of \<open>open\<close> other than \<open>PermissionError\<close> leaves the function.
\<close>

function wait_for_downloaded_file_loop ::
  "os_env \<Rightarrow> string \<Rightarrow> int \<Rightarrow> nat \<Rightarrow> exn + string option" where
  "wait_for_downloaded_file_loop os full_path timeout elapsed =
     (if int elapsed < timeout then
        (if path_exists os elapsed full_path then
           (case open_append os elapsed full_path of
              None \<Rightarrow> Inr (Some full_path)
            | Some e \<Rightarrow>
                if e = PermissionError
                then wait_for_downloaded_file_loop os full_path timeout (elapsed + 1)
                else Inl e)
         else wait_for_downloaded_file_loop os full_path timeout (elapsed + 1))
      else Inr None)"
  by pat_completeness auto
termination
  by (relation "measure (\<lambda>(os, full_path, timeout, elapsed). nat (timeout - int elapsed))") auto

text \<open>
  Lines 140 to 145: the directory defaults to \<open>~/Downloads\<close> when the configured one is
  \<open>None\<close> or empty; the file is looked for under that directory.
\<close>

definition download_path :: "os_env \<Rightarrow> download_config \<Rightarrow> string \<Rightarrow> string" where
  "download_path os cfg filename =
     (let download_dir =
            (case download_directory cfg of
               None \<Rightarrow> path_join (home os) ''Downloads''
             | Some d \<Rightarrow> if d = [] then path_join (home os) ''Downloads'' else d)
      in path_join download_dir filename)"

definition wait_for_downloaded_file ::
  "os_env \<Rightarrow> download_config \<Rightarrow> string \<Rightarrow> int \<Rightarrow> exn + string option" where
  "wait_for_downloaded_file os cfg filename timeout =
     wait_for_downloaded_file_loop os (download_path os cfg filename) timeout 0"

text \<open>\<open>day or time.strftime("%d")\<close>: the default replaces \<open>None\<close> and the empty string.\<close>

definition or_default :: "string option \<Rightarrow> string \<Rightarrow> string" where
  "or_default v d = (case v of None \<Rightarrow> d | Some x \<Rightarrow> if x = [] then d else x)"

definition generate_filename ::
  "os_env \<Rightarrow> download_config \<Rightarrow> string option \<Rightarrow> string option \<Rightarrow> string option \<Rightarrow> exn + string" where
  "generate_filename os cfg day month year =
     str_format os (renamed_filename_pattern cfg)
       (or_default day (strftime os ''%d''))
       (or_default month (strftime os ''%B''))
       (or_default year (strftime os ''%Y''))"

text \<open>\<open>FileManagerUtil.rename_file\<close>: each \<open>except\<close> clause logs and raises again.\<close>

definition rename_file ::
  "os_env \<Rightarrow> string \<Rightarrow> string \<Rightarrow> string option \<Rightarrow> 's world \<Rightarrow> (exn + unit) \<times> 's world" where
  "rename_file os old_name new_name directory w =
     (let directory' = (case directory of None \<Rightarrow> path_join (home os) ''Downloads'' | Some d \<Rightarrow> d);
          old_file_path = path_join directory' old_name;
          new_file_path = (if isabs new_name then new_name else path_join directory' new_name)
      in case os_rename os old_file_path new_file_path of
           None \<Rightarrow> (Inr (), w)
         | Some e \<Rightarrow>
             (Inl e,
              log_add (if e = FileNotFoundError then ErrorRenameNotFound
                       else if e = FileExistsError then ErrorRenameExists
                       else ErrorRenameUnexpected) w))"

text \<open>
  \<open>download_data\<close>: wait for the table marker, click the download button, wait for
  the file, raise \<open>FileNotFoundError\<close> when \<open>_wait_for_downloaded_file\<close> returned nothing,
  otherwise rename the file.
\<close>

definition download_data_body ::
  "'s browser \<Rightarrow> os_env \<Rightarrow> download_config \<Rightarrow> string option \<Rightarrow> string option \<Rightarrow> string option \<Rightarrow>
     's world \<Rightarrow> (exn + unit) \<times> 's world" where
  "download_data_body b os cfg day month year w =
     (case until_presence b (XPath (table_check_xpath cfg)) (page w) of
        Inl e \<Rightarrow> (Inl e, w)
      | Inr table_check \<Rightarrow>
          (case until_clickable b (XPath (download_button_xpath cfg)) (page w) of
             Inl e \<Rightarrow> (Inl e, w)
           | Inr download_button \<Rightarrow>
               (case download_checked_click b (XPath (download_button_xpath cfg)) w of
                  (Inl e, w1) \<Rightarrow> (Inl e, w1)
                | (Inr u, w1) \<Rightarrow>
                    (case wait_for_downloaded_file os cfg (default_filename cfg)
                            (max_download_wait cfg) of
                       Inl e \<Rightarrow> (Inl e, w1)
                     | Inr None \<Rightarrow> (Inl FileNotFoundError, w1)
                     | Inr (Some downloaded_file) \<Rightarrow>
                         if downloaded_file = [] then (Inl FileNotFoundError, w1)
                         else
                           (case generate_filename os cfg day month year of
                              Inl e \<Rightarrow> (Inl e, w1)
                            | Inr final_name \<Rightarrow>
                                rename_file os downloaded_file final_name
                                  (download_directory cfg) w1)))))"

definition download_data ::
  "'s browser \<Rightarrow> os_env \<Rightarrow> download_config \<Rightarrow> string option \<Rightarrow> string option \<Rightarrow> string option \<Rightarrow>
     's world \<Rightarrow> (exn + unit) \<times> 's world" where
  "download_data b os cfg day month year w =
     (case download_data_body b os cfg day month year w of
        (Inl e, w') \<Rightarrow> (Inl e, log_add ErrorDownloadData w')
      | (Inr u, w') \<Rightarrow> (Inr (), w'))"

section \<open>Vocabulary of the properties\<close>

text \<open>
  The document after \<open>k\<close> clicks on the control at \<open>xpath\<close>, starting from \<open>s\<close>: the
  pages of a paginated table when the control is its next-page control, the views of a date
  picker when it is its previous control.
\<close>

definition page_after :: "'s browser \<Rightarrow> string \<Rightarrow> 's \<Rightarrow> nat \<Rightarrow> 's" where
  "page_after b xpath s k = (after_click b (XPath xpath) ^^ k) s"

text \<open>The body rows of the table at \<open>table_xpath\<close> in a document, cell by cell, stripped.\<close>

definition page_rows :: "'s browser \<Rightarrow> string \<Rightarrow> 's \<Rightarrow> string list list" where
  "page_rows b table_xpath s =
     (case locate b s (XPath table_xpath) of
        None \<Rightarrow> []
      | Some table_element \<Rightarrow> map (\<lambda>cells. map strip cells) (tbody_tr table_element))"

text \<open>
  The pagination loop ends on a page exactly when the next-page control is absent there, or
  has no \<open>class\<close> attribute, or carries \<open>disabled\<close> in its \<open>class\<close>, or makes
  \<open>checked_click\<close> raise: it does not report itself selected and the click on it raises
  (it is not displayed). Whether the control is enabled plays no part: the loop never waits
  for it to be clickable, and the click on a displayed control is delivered.
\<close>

definition pagination_ends :: "'s browser \<Rightarrow> string \<Rightarrow> 's \<Rightarrow> bool" where
  "pagination_ends b next_xpath s =
     (case locate b s (XPath next_xpath) of
        None \<Rightarrow> True
      | Some control \<Rightarrow>
          (case class_attr control of
             None \<Rightarrow> True
           | Some cls \<Rightarrow> sublist ''disabled'' cls \<or> (\<not> selected control \<and> \<not> displayed control)))"

text \<open>
  The session after \<open>k\<close> rounds of \<open>checked_click\<close> on the control at \<open>xpath\<close>: each round
  clicks the control, unless it reports itself selected, in which case the round changes
  nothing.
\<close>

definition world_after :: "'s browser \<Rightarrow> string \<Rightarrow> 's world \<Rightarrow> nat \<Rightarrow> 's world" where
  "world_after b xpath w k = ((\<lambda>w. snd (checked_click b (XPath xpath) w)) ^^ k) w"

text \<open>
  For the date picker: the state after the click that opens the widget, the lower-cased
  header text shown after \<open>k\<close> clicks on the previous control (when the header is
  visible), the year the code reads from a header text, and whether the previous control
  can be clicked.
\<close>

definition opened :: "'s browser \<Rightarrow> string \<Rightarrow> 's world \<Rightarrow> 's world" where
  "opened b input_xpath w =
     w\<lparr>page := after_click b (XPath input_xpath) (page w), clicks := clicks w @ [XPath input_xpath]\<rparr>"

definition header_after :: "'s browser \<Rightarrow> string \<Rightarrow> string \<Rightarrow> 's \<Rightarrow> nat \<Rightarrow> string option" where
  "header_after b prev_xpath switch_xpath s k =
     (case until_visible b (XPath switch_xpath) (page_after b prev_xpath s k) of
        Inl e \<Rightarrow> None
      | Inr switch \<Rightarrow> Some (lower (elem_text switch)))"

definition header_year :: "string \<Rightarrow> int option" where
  "header_year current_text = map_option int_of_digits (search_d4 current_text)"

definition prev_clickable :: "'s browser \<Rightarrow> string \<Rightarrow> 's \<Rightarrow> bool" where
  "prev_clickable b prev_xpath s =
     (case locate b s (XPath prev_xpath) of None \<Rightarrow> False | Some prev \<Rightarrow> displayed prev)"

section \<open>Example documents\<close>

text \<open>Concrete browsers and configurations on which the properties below are evaluated.\<close>

definition plain_element :: element where
  "plain_element =
     \<lparr>elem_text = [], class_attr = Some [], selected = False, displayed = True, enabled = True,
      thead_th = [], tbody_tr = [], select_options = None\<rparr>"

definition start :: "'s \<Rightarrow> 's world" where
  "start s = \<lparr>page = s, clicks = [], logged = []\<rparr>"

text \<open>A page with one button: it never reports selected, and a click leaves the page as it is.\<close>
definition button_browser :: "unit browser" where
  "button_browser =
     \<lparr>locate = (\<lambda>s loc. if loc = XPath ''//button'' then Some plain_element else None),
      after_click = (\<lambda>loc s. s),
      after_get = (\<lambda>url s. Inr s),
      after_select = (\<lambda>loc txt s. s)\<rparr>"

text \<open>A page with one checkbox; the document state is whether it is checked.\<close>
definition checkbox_browser :: "bool browser" where
  "checkbox_browser =
     \<lparr>locate = (\<lambda>s loc. if loc = XPath ''//input'' then Some (plain_element\<lparr>selected := s\<rparr>) else None),
      after_click = (\<lambda>loc s. if loc = XPath ''//input'' then \<not> s else s),
      after_get = (\<lambda>url s. Inr s),
      after_select = (\<lambda>loc txt s. s)\<rparr>"

text \<open>A document that no click, page load or selection changes.\<close>

definition static_browser :: "(locator \<Rightarrow> element option) \<Rightarrow> unit browser" where
  "static_browser doc =
     \<lparr>locate = (\<lambda>s. doc),
      after_click = (\<lambda>loc s. s),
      after_get = (\<lambda>url s. Inr s),
      after_select = (\<lambda>loc txt s. s)\<rparr>"

definition demo_config :: data_selection_config where
  "demo_config =
     \<lparr>cfg_url_analysis = ''https://example.org/analysis'',
      cfg_daily_button_xpath = ''//button[1]'',
      cfg_date_picker_xpath = ''//input'',
      cfg_typology_select_xpath = ''//select'',
      cfg_next_button_xpath = ''//button[2]'',
      cfg_confirm_button_xpath = ''//button[3]'',
      cfg_table_xpath = ''//table'',
      cfg_pagination_next_xpath = ''//li[2]''\<rparr>"

definition demo_elements :: "string \<rightharpoonup> string" where
  "demo_elements = [''UP1 INV1.1-01'' \<mapsto> ''//label[1]'', ''UP1 INV1.1-02'' \<mapsto> ''//label[2]'']"

definition demo_parameters :: "string \<rightharpoonup> string" where
  "demo_parameters = [''FECHA'' \<mapsto> ''//label[3]'']"

definition demo_category :: "string \<rightharpoonup> (string \<rightharpoonup> string)" where
  "demo_category = [''Elements'' \<mapsto> demo_elements, ''Parameters'' \<mapsto> demo_parameters]"

definition demo_typology :: typology where
  "demo_typology = [''Inversor - (INVERSOR)'' \<mapsto> demo_category]"

definition demo_service :: data_selection_service where
  "demo_service =
     \<lparr>config = demo_config,
      typology_dict = demo_typology,
      svc_day = 15,
      svc_month = ''febrero'',
      svc_year = 2025,
      elements = [''UP1 INV1.1-01'', ''UP1 INV9.9-99'', ''UP1 INV1.1-02''],
      parameters = [''POTENCIA'', ''FECHA''],
      typology_key = ''Inversor - (INVERSOR)''\<rparr>"

text \<open>
  A result page whose table has three header cells and two rows, and no pagination
  control: the table fits on one page. The date picker already shows the target month.
\<close>

definition demo_table :: element where
  "demo_table =
     plain_element
       \<lparr>class_attr := Some ''table'',
        thead_th := [''Fecha'', ''Equipo'', '' Potencia ''],
        tbody_tr := [[''01/02/2025'', ''a'', '' 10 ''], [''02/02/2025'', ''b'', ''12'']]\<rparr>"

definition demo_doc :: "locator \<Rightarrow> element option" where
  "demo_doc =
     map_of
       [(XPath ''//button[1]'', plain_element),
        (XPath default_input_datapicker_xpath, plain_element),
        (ClassName default_datepicker_container_class_name, plain_element),
        (XPath default_datepicker_switch_xpath, plain_element\<lparr>elem_text := ''Febrero 2025''\<rparr>),
        (XPath default_prev_button_xpath, plain_element),
        (XPath (day_xpath 15), plain_element),
        (XPath ''//select'',
           plain_element\<lparr>select_options := Some [''Inversor - (INVERSOR)'', ''Meteo - (METEO)'']\<rparr>),
        (XPath ''//label[1]'', plain_element),
        (XPath ''//label[2]'', plain_element),
        (XPath ''//label[3]'', plain_element),
        (XPath ''//button[2]'', plain_element),
        (XPath ''//button[3]'', plain_element),
        (XPath ''//table'', demo_table)]"

text \<open>
  A download page, and two histories of the download directory: one where the file never
  appears, one where it is there from the first look on but stays locked by its writer.
\<close>

definition demo_download_config :: download_config where
  "demo_download_config =
     \<lparr>table_check_xpath = ''//table'',
      download_button_xpath = ''//button[2]'',
      default_filename = ''QuickAnalysis.xlsx'',
      renamed_filename_pattern = ''QuickAnalysis_{day}_{month}_{year}.xlsx'',
      download_directory = Some ''/data'',
      max_download_wait = 3\<rparr>"

definition os_never_appears :: os_env where
  "os_never_appears =
     \<lparr>home = ''/home/user'',
      path_exists = (\<lambda>n p. False),
      open_append = (\<lambda>n p. Some FileNotFoundError),
      os_rename = (\<lambda>old new. None),
      strftime = (\<lambda>fmt. ''01''),
      str_format = (\<lambda>pattern day month year. Inr (''QuickAnalysis_'' @ day @ ''_'' @ month @ ''_'' @ year @ ''.xlsx''))\<rparr>"

definition os_stays_locked :: os_env where
  "os_stays_locked =
     os_never_appears
       \<lparr>path_exists := (\<lambda>n p. p = ''/data/QuickAnalysis.xlsx''),
        open_append := (\<lambda>n p. Some PermissionError)\<rparr>"

text \<open>
  The same page with a table whose second header cell is blank, and with a table whose
  header cells are all blank.
\<close>

definition partly_blank_doc :: "locator \<Rightarrow> element option" where
  "partly_blank_doc =
     demo_doc(XPath ''//table'' \<mapsto> demo_table\<lparr>thead_th := [''Fecha'', ''  '', '' Potencia '']\<rparr>)"

definition blank_header_doc :: "locator \<Rightarrow> element option" where
  "blank_header_doc =
     demo_doc(XPath ''//table'' \<mapsto> demo_table\<lparr>thead_th := [''  '', [], '' '']\<rparr>)"

text \<open>
  A table of three pages; the document state is the number of the page shown. The next-page
  control is live on the first two pages and carries the \<open>disabled\<close> class on the third.
  The second page repeats a row of the first, and its last row has fewer cells; the widest
  row, on the third page, has as many cells as the header row.
\<close>

definition paged_browser :: "nat browser" where
  "paged_browser =
     \<lparr>locate = (\<lambda>s loc.
        if loc = XPath ''//table'' then
          Some (plain_element
            \<lparr>thead_th := [''Hora'', ''Valor'', ''Nota''],
             tbody_tr := (if s = 0 then [[''00:00'', '' 1 ''], [''01:00'', ''2'']]
                          else if s = 1 then [[''01:00'', ''2''], [''02:00'']]
                          else [[''03:00'', ''4'', ''x'']])\<rparr>)
        else if loc = XPath ''//li[2]'' then
          Some (plain_element\<lparr>class_attr := Some (if s < 2 then ''next'' else ''next disabled'')\<rparr>)
        else None),
      after_click = (\<lambda>loc s. if loc = XPath ''//li[2]'' then s + 1 else s),
      after_get = (\<lambda>url s. Inr s),
      after_select = (\<lambda>loc txt s. s)\<rparr>"

text \<open>
  A table of two pages whose next-page control is an element without a \<open>class\<close>
  attribute: it is displayed and enabled, and a click on it shows the second page, where
  the control is gone.
\<close>

definition classless_browser :: "nat browser" where
  "classless_browser =
     \<lparr>locate = (\<lambda>s loc.
        if loc = XPath ''//table'' then
          Some (plain_element
            \<lparr>thead_th := [''Hora'', ''Valor''],
             tbody_tr := (if s = 0 then [[''00:00'', ''1'']] else [[''01:00'', ''2'']])\<rparr>)
        else if loc = XPath ''//a'' \<and> s = 0 then Some (plain_element\<lparr>class_attr := None\<rparr>)
        else None),
      after_click = (\<lambda>loc s. if loc = XPath ''//a'' then s + 1 else s),
      after_get = (\<lambda>url s. Inr s),
      after_select = (\<lambda>loc txt s. s)\<rparr>"

text \<open>
  A calendar widget in the style of the bootstrap date picker. The document state is the
  year and the month (1 to 12) on display; the header shows the month name and the year;
  the previous control steps back one month; the day cells 1 to 28 can be clicked.
\<close>

definition month_names :: "string list" where
  "month_names =
     [''Enero'', ''Febrero'', ''Marzo'', ''Abril'', ''Mayo'', ''Junio'', ''Julio'', ''Agosto'',
      ''Septiembre'', ''Octubre'', ''Noviembre'', ''Diciembre'']"

definition day_cells :: "locator list" where
  "day_cells = map (\<lambda>d. XPath (day_xpath (int d))) [1..<29]"

definition calendar_browser :: "(nat \<times> nat) browser" where
  "calendar_browser =
     \<lparr>locate = (\<lambda>(y, m) loc.
        if loc = XPath default_input_datapicker_xpath then Some plain_element
        else if loc = ClassName default_datepicker_container_class_name then Some plain_element
        else if loc = XPath default_datepicker_switch_xpath then
          Some (plain_element\<lparr>elem_text := month_names ! (m - 1) @ '' '' @ digits_of_nat y\<rparr>)
        else if loc = XPath default_prev_button_xpath then Some plain_element
        else if loc \<in> set day_cells then Some plain_element
        else None),
      after_click = (\<lambda>loc (y, m).
        if loc = XPath default_prev_button_xpath
        then (if m \<le> 1 then (y - 1, 12) else (y, m - 1))
        else (y, m)),
      after_get = (\<lambda>url s. Inr s),
      after_select = (\<lambda>loc txt s. s)\<rparr>"

text \<open>The year and month that the calendar shows \<open>k\<close> months before \<open>(y, m)\<close>.\<close>

definition months_before :: "nat \<times> nat \<Rightarrow> nat \<Rightarrow> nat \<times> nat" where
  "months_before ym k =
     (let t = 12 * fst ym + (snd ym - 1) - k in (t div 12, t mod 12 + 1))"

text \<open>The lower-cased header text of the calendar when it shows the year and month \<open>ym\<close>.\<close>

definition calendar_header :: "nat \<times> nat \<Rightarrow> string" where
  "calendar_header ym = lower (month_names ! (snd ym - 1) @ '' '' @ digits_of_nat (fst ym))"

text \<open>The demo page with a date picker whose header shows the month without a year.\<close>

definition yearless_doc :: "locator \<Rightarrow> element option" where
  "yearless_doc =
     demo_doc(XPath default_datepicker_switch_xpath \<mapsto> plain_element\<lparr>elem_text := ''Febrero''\<rparr>)"

section \<open>Properties\<close>

subsection \<open>checked_click\<close>

lemma checked_click_selected:
  "locate b (page w) el = Some e \<Longrightarrow> selected e \<Longrightarrow> checked_click b el w = (Inr (), w)"
  by (simp add: checked_click_def is_selected_def)

lemma checked_click_unselected:
  "locate b (page w) el = Some e \<Longrightarrow> \<not> selected e \<Longrightarrow> displayed e \<Longrightarrow>
   checked_click b el w = (Inr (), w\<lparr>page := after_click b el (page w), clicks := clicks w @ [el]\<rparr>)"
  by (simp add: checked_click_def is_selected_def click_def)

text \<open>
  Claim C5 (as amended). A control that reports itself selected is not clicked:
  \<open>checked_click\<close> returns at once and nothing changes. For a control that does not report
  itself selected, that can be clicked, and that reports itself selected once clicked (a
  checkbox), the first \<open>checked_click\<close> delivers exactly one click and a second
  \<open>checked_click\<close> changes nothing more: two successive calls make exactly one
  activation.
\<close>

theorem checked_click_idempotent:
  assumes "locate b (page w) el = Some e"
  shows "(selected e \<longrightarrow> checked_click b el w = (Inr (), w)) \<and>
         (\<not> selected e \<and> displayed e \<and>
          (\<exists>e'. locate b (after_click b el (page w)) el = Some e' \<and> selected e') \<longrightarrow>
            (\<exists>w1. checked_click b el w = (Inr (), w1) \<and> clicks w1 = clicks w @ [el] \<and>
                  checked_click b el w1 = (Inr (), w1)))"
proof (intro conjI impI)
  assume "selected e"
  with assms show "checked_click b el w = (Inr (), w)" by (rule checked_click_selected)
next
  assume h: "\<not> selected e \<and> displayed e \<and>
    (\<exists>e'. locate b (after_click b el (page w)) el = Some e' \<and> selected e')"
  then obtain e' where e': "locate b (after_click b el (page w)) el = Some e'" "selected e'"
    by blast
  let ?w1 = "w\<lparr>page := after_click b el (page w), clicks := clicks w @ [el]\<rparr>"
  have first: "checked_click b el w = (Inr (), ?w1)"
    using assms h by (simp add: checked_click_unselected)
  have "locate b (page ?w1) el = Some e'" using e' by simp
  then have second: "checked_click b el ?w1 = (Inr (), ?w1)"
    using e'(2) by (rule checked_click_selected)
  show "\<exists>w1. checked_click b el w = (Inr (), w1) \<and> clicks w1 = clicks w @ [el] \<and>
                  checked_click b el w1 = (Inr (), w1)"
    using first second by (intro exI[of _ ?w1]) simp
qed

theorem checked_click_idempotent_witness:
  "checked_click checkbox_browser (XPath ''//input'') (start True) = (Inr (), start True) \<and>
   (\<exists>w1. checked_click checkbox_browser (XPath ''//input'') (start False) = (Inr (), w1) \<and>
         clicks w1 = [XPath ''//input''] \<and>
         checked_click checkbox_browser (XPath ''//input'') w1 = (Inr (), w1))"
  using checked_click_idempotent [of checkbox_browser "start True" "XPath ''//input''" "plain_element\<lparr>selected := True\<rparr>"]
        checked_click_idempotent [of checkbox_browser "start False" "XPath ''//input''" "plain_element\<lparr>selected := False\<rparr>"]
  by (simp add: checkbox_browser_def start_def plain_element_def)

text \<open>
  Claim C5 as stated fails for a control that never reports itself selected (a button,
  which the source's comment says is clicked directly): two successive
  \<open>checked_click\<close> calls deliver two clicks, and the second call changes the state again.
\<close>

theorem checked_click_button_counterexample:
  "clicks (snd (checked_click button_browser (XPath ''//button'')
             (snd (checked_click button_browser (XPath ''//button'') (start ()))))) =
     [XPath ''//button'', XPath ''//button''] \<and>
   snd (checked_click button_browser (XPath ''//button'')
             (snd (checked_click button_browser (XPath ''//button'') (start ())))) \<noteq>
   snd (checked_click button_browser (XPath ''//button'') (start ()))"
  by (simp add: checked_click_def is_selected_def click_def button_browser_def start_def plain_element_def)

subsection \<open>Toggling elements and parameters\<close>

lemma select_elements_eq_loop:
  "select_elements b self w = select_elements_loop b self (elements self) w"
  by (simp add: select_elements_def)

lemma select_parameters_eq_loop:
  "select_parameters b self w = select_parameters_loop b self (parameters self) w"
  by (simp add: select_parameters_def)

lemma select_elements_loop_cong:
  "typology_dict self' = typology_dict self \<Longrightarrow> typology_key self' = typology_key self \<Longrightarrow>
   select_elements_loop b self' names w = select_elements_loop b self names w"
  by (induction names arbitrary: w) (auto split: option.splits sum.splits prod.splits)

lemma select_parameters_loop_cong:
  "typology_dict self' = typology_dict self \<Longrightarrow> typology_key self' = typology_key self \<Longrightarrow>
   select_parameters_loop b self' names w = select_parameters_loop b self names w"
  by (induction names arbitrary: w) (auto split: option.splits sum.splits prod.splits)

lemma select_elements_loop_append:
  "select_elements_loop b self (xs @ ys) w =
     (case select_elements_loop b self xs w of
        (Inl e, w') \<Rightarrow> (Inl e, w')
      | (Inr u, w') \<Rightarrow> select_elements_loop b self ys w')"
  by (induction xs arbitrary: w) (auto split: option.splits sum.splits prod.splits)

lemma select_parameters_loop_append:
  "select_parameters_loop b self (xs @ ys) w =
     (case select_parameters_loop b self xs w of
        (Inl e, w') \<Rightarrow> (Inl e, w')
      | (Inr u, w') \<Rightarrow> select_parameters_loop b self ys w')"
  by (induction xs arbitrary: w) (auto split: option.splits sum.splits prod.splits)

lemma select_elements_loop_skip:
  "typology_dict self (typology_key self) = Some category \<Longrightarrow>
   category ''Elements'' = Some table \<Longrightarrow> table n = None \<or> table n = Some [] \<Longrightarrow>
   select_elements_loop b self (n # rest) w =
     select_elements_loop b self rest (log_add (WarnElementXPath n) w)"
  by auto

lemma select_parameters_loop_skip:
  "typology_dict self (typology_key self) = Some category \<Longrightarrow>
   category ''Parameters'' = Some table \<Longrightarrow> table n = None \<or> table n = Some [] \<Longrightarrow>
   select_parameters_loop b self (n # rest) w =
     select_parameters_loop b self rest (log_add (WarnParameterXPath n) w)"
  by auto

text \<open>
  Claim C6. Let the category's table exist and let the name \<open>n\<close> resolve to nothing in it
  (no entry, or an empty XPath). Wherever \<open>n\<close> stands in the configured list, once the
  names before it have been toggled the run goes on exactly as the run over the names
  after it, with one warning for \<open>n\<close> added to the log: the name is skipped, the rest is
  still toggled, and the failure to resolve \<open>n\<close> raises nothing. This holds for elements
  and for parameters.
\<close>

theorem unresolved_name_skipped:
  assumes "typology_dict self (typology_key self) = Some category"
      and "table n = None \<or> table n = Some []"
  shows "(category ''Elements'' = Some table \<and> elements self = xs @ n # ys \<and>
          select_elements b (self\<lparr>elements := xs\<rparr>) w = (Inr (), w1) \<longrightarrow>
            select_elements b self w =
              select_elements b (self\<lparr>elements := ys\<rparr>) (log_add (WarnElementXPath n) w1)) \<and>
         (category ''Parameters'' = Some table \<and> parameters self = xs @ n # ys \<and>
          select_parameters b (self\<lparr>parameters := xs\<rparr>) w = (Inr (), w1) \<longrightarrow>
            select_parameters b self w =
              select_parameters b (self\<lparr>parameters := ys\<rparr>) (log_add (WarnParameterXPath n) w1))"
proof (intro conjI impI)
  assume h: "category ''Elements'' = Some table \<and> elements self = xs @ n # ys \<and>
          select_elements b (self\<lparr>elements := xs\<rparr>) w = (Inr (), w1)"
  then have pre: "select_elements_loop b self xs w = (Inr (), w1)"
    by (simp add: select_elements_eq_loop select_elements_loop_cong [of "self\<lparr>elements := xs\<rparr>" self])
  have "select_elements b self w = select_elements_loop b self (xs @ n # ys) w"
    using h by (simp add: select_elements_eq_loop)
  also have "\<dots> = select_elements_loop b self (n # ys) w1"
    using pre by (simp add: select_elements_loop_append)
  also have "\<dots> = select_elements_loop b self ys (log_add (WarnElementXPath n) w1)"
    using assms h select_elements_loop_skip [of self category table n b ys w1] by simp
  also have "\<dots> = select_elements b (self\<lparr>elements := ys\<rparr>) (log_add (WarnElementXPath n) w1)"
    by (simp add: select_elements_eq_loop select_elements_loop_cong [of "self\<lparr>elements := ys\<rparr>" self])
  finally show "select_elements b self w =
              select_elements b (self\<lparr>elements := ys\<rparr>) (log_add (WarnElementXPath n) w1)" .
next
  assume h: "category ''Parameters'' = Some table \<and> parameters self = xs @ n # ys \<and>
          select_parameters b (self\<lparr>parameters := xs\<rparr>) w = (Inr (), w1)"
  then have pre: "select_parameters_loop b self xs w = (Inr (), w1)"
    by (simp add: select_parameters_eq_loop select_parameters_loop_cong [of "self\<lparr>parameters := xs\<rparr>" self])
  have "select_parameters b self w = select_parameters_loop b self (xs @ n # ys) w"
    using h by (simp add: select_parameters_eq_loop)
  also have "\<dots> = select_parameters_loop b self (n # ys) w1"
    using pre by (simp add: select_parameters_loop_append)
  also have "\<dots> = select_parameters_loop b self ys (log_add (WarnParameterXPath n) w1)"
    using assms h select_parameters_loop_skip [of self category table n b ys w1] by simp
  also have "\<dots> = select_parameters b (self\<lparr>parameters := ys\<rparr>) (log_add (WarnParameterXPath n) w1)"
    by (simp add: select_parameters_eq_loop select_parameters_loop_cong [of "self\<lparr>parameters := ys\<rparr>" self])
  finally show "select_parameters b self w =
              select_parameters b (self\<lparr>parameters := ys\<rparr>) (log_add (WarnParameterXPath n) w1)" .
qed

theorem unresolved_name_skipped_witness:
  "select_elements (static_browser demo_doc) demo_service (start ()) =
     (Inr (), \<lparr>page = (), clicks = [XPath ''//label[1]'', XPath ''//label[2]''],
               logged = [WarnElementXPath ''UP1 INV9.9-99'']\<rparr>) \<and>
   select_parameters (static_browser demo_doc) demo_service (start ()) =
     (Inr (), \<lparr>page = (), clicks = [XPath ''//label[3]''],
               logged = [WarnParameterXPath ''POTENCIA'']\<rparr>)"
proof -
  let ?b = "static_browser demo_doc"
  have cat: "typology_dict demo_service (typology_key demo_service) = Some demo_category"
    by (simp add: demo_service_def demo_typology_def)
  have e1: "demo_elements ''UP1 INV9.9-99'' = None \<or> demo_elements ''UP1 INV9.9-99'' = Some []"
    by (simp add: demo_elements_def)
  have p1: "demo_parameters ''POTENCIA'' = None \<or> demo_parameters ''POTENCIA'' = Some []"
    by (simp add: demo_parameters_def)
  let ?w1 = "\<lparr>page = (), clicks = [XPath ''//label[1]''], logged = []\<rparr>"
  have e2: "demo_category ''Elements'' = Some demo_elements"
    by (simp add: demo_category_def)
  have e3: "elements demo_service = [''UP1 INV1.1-01''] @ ''UP1 INV9.9-99'' # [''UP1 INV1.1-02'']"
    by (simp add: demo_service_def)
  have e4: "select_elements ?b (demo_service\<lparr>elements := [''UP1 INV1.1-01'']\<rparr>) (start ()) = (Inr (), ?w1)"
    by code_simp
  have e5: "select_elements ?b (demo_service\<lparr>elements := [''UP1 INV1.1-02'']\<rparr>)
              (log_add (WarnElementXPath ''UP1 INV9.9-99'') ?w1) =
            (Inr (), \<lparr>page = (), clicks = [XPath ''//label[1]'', XPath ''//label[2]''],
               logged = [WarnElementXPath ''UP1 INV9.9-99'']\<rparr>)"
    by code_simp
  have p2: "demo_category ''Parameters'' = Some demo_parameters"
    by (simp add: demo_category_def)
  have p3: "parameters demo_service = [] @ ''POTENCIA'' # [''FECHA'']"
    by (simp add: demo_service_def)
  have p4: "select_parameters ?b (demo_service\<lparr>parameters := []\<rparr>) (start ()) = (Inr (), start ())"
    by code_simp
  have p5: "select_parameters ?b (demo_service\<lparr>parameters := [''FECHA'']\<rparr>)
              (log_add (WarnParameterXPath ''POTENCIA'') (start ())) =
            (Inr (), \<lparr>page = (), clicks = [XPath ''//label[3]''],
               logged = [WarnParameterXPath ''POTENCIA'']\<rparr>)"
    by code_simp
  show ?thesis
    using unresolved_name_skipped [where self = demo_service and category = demo_category
            and table = demo_elements and n = "''UP1 INV9.9-99''" and xs = "[''UP1 INV1.1-01'']"
            and ys = "[''UP1 INV1.1-02'']" and b = ?b and w = "start ()" and ?w1.0 = ?w1]
          unresolved_name_skipped [where self = demo_service and category = demo_category
            and table = demo_parameters and n = "''POTENCIA''" and xs = "[]"
            and ys = "[''FECHA'']" and b = ?b and w = "start ()" and ?w1.0 = "start ()"]
          cat e1 p1
          e2 e3 e4 e5 p2 p3 p4 p5
    by simp
qed

lemma select_elements_KeyError:
  "typology_dict self (typology_key self) = None \<Longrightarrow> elements self \<noteq> [] \<Longrightarrow>
   select_elements b self w = (Inl KeyError, w)"
  by (cases "elements self") (simp_all add: select_elements_def)

lemma select_parameters_KeyError:
  "typology_dict self (typology_key self) = None \<Longrightarrow> parameters self \<noteq> [] \<Longrightarrow>
   select_parameters b self w = (Inl KeyError, w)"
  by (cases "parameters self") (simp_all add: select_parameters_def)

lemma select_elements_nothing:
  "elements self = [] \<Longrightarrow> select_elements b self w = (Inr (), w)"
  by (simp add: select_elements_def)

lemma select_parameters_nothing:
  "parameters self = [] \<Longrightarrow> select_parameters b self w = (Inr (), w)"
  by (simp add: select_parameters_def)

text \<open>
  Claim C10 (as amended). Let the category key be absent from the typology dictionary.
  Toggling elements raises \<open>KeyError\<close> when at least one element name is configured, and
  toggling parameters raises \<open>KeyError\<close> when at least one parameter name is configured;
  with no name of a kind configured, the toggling of that kind returns at once without any
  lookup. When a name of either kind is configured and the run reaches the toggling,
  \<open>select_data\<close> logs the error and raises the \<open>KeyError\<close>: the run is aborted.
\<close>

theorem missing_category_aborts:
  assumes "typology_dict self (typology_key self) = None"
  shows "(elements self \<noteq> [] \<longrightarrow> select_elements b self w = (Inl KeyError, w)) \<and>
         (parameters self \<noteq> [] \<longrightarrow> select_parameters b self w = (Inl KeyError, w)) \<and>
         (elements self = [] \<longrightarrow> select_elements b self w = (Inr (), w)) \<and>
         (parameters self = [] \<longrightarrow> select_parameters b self w = (Inr (), w)) \<and>
         ((elements self \<noteq> [] \<or> parameters self \<noteq> []) \<and>
          select_data_setup b self w0 = Some (Inr (), w) \<longrightarrow>
            select_data b self w0 = Some (Inl KeyError, log_add ErrorSelectData w))"
proof (intro conjI impI)
  assume "elements self \<noteq> []"
  with assms show "select_elements b self w = (Inl KeyError, w)"
    by (rule select_elements_KeyError)
next
  assume "parameters self \<noteq> []"
  with assms show "select_parameters b self w = (Inl KeyError, w)"
    by (rule select_parameters_KeyError)
next
  assume "elements self = []"
  then show "select_elements b self w = (Inr (), w)"
    by (rule select_elements_nothing)
next
  assume "parameters self = []"
  then show "select_parameters b self w = (Inr (), w)"
    by (rule select_parameters_nothing)
next
  assume h: "(elements self \<noteq> [] \<or> parameters self \<noteq> []) \<and>
          select_data_setup b self w0 = Some (Inr (), w)"
  show "select_data b self w0 = Some (Inl KeyError, log_add ErrorSelectData w)"
  proof (cases "elements self = []")
    case True
    with h have "parameters self \<noteq> []" by simp
    with assms have "select_parameters b self w = (Inl KeyError, w)"
      by (rule select_parameters_KeyError)
    with h True show ?thesis
      by (simp add: select_data_def select_data_body_def select_elements_nothing)
  next
    case False
    with assms have "select_elements b self w = (Inl KeyError, w)"
      by (rule select_elements_KeyError)
    with h show ?thesis
      by (simp add: select_data_def select_data_body_def)
  qed
qed

theorem missing_category_aborts_witness:
  "select_data (static_browser demo_doc) (demo_service\<lparr>typology_dict := Map.empty\<rparr>) (start ()) =
     Some (Inl KeyError,
       \<lparr>page = (),
        clicks = [XPath ''//button[1]'', XPath default_input_datapicker_xpath, XPath (day_xpath 15)],
        logged = [ErrorSelectData]\<rparr>)"
proof -
  let ?b = "static_browser demo_doc"
  let ?self = "demo_service\<lparr>typology_dict := Map.empty\<rparr>"
  let ?w = "\<lparr>page = (),
        clicks = [XPath ''//button[1]'', XPath default_input_datapicker_xpath, XPath (day_xpath 15)],
        logged = []\<rparr>"
  have absent: "typology_dict ?self (typology_key ?self) = None" by simp
  have names: "elements ?self \<noteq> [] \<or> parameters ?self \<noteq> []"
    by (simp add: demo_service_def)
  have prefix_ok: "select_data_setup ?b ?self (start ()) = Some (Inr (), ?w)"
    by code_simp
  show ?thesis
    using missing_category_aborts [OF absent, of ?b ?w "start ()"] names prefix_ok
    by (simp add: log_add_def)
qed

text \<open>
  Claim C10 as stated fails for a service without element and parameter names (the
  constructor's default): the category key is absent from the dictionary, and both
  togglings return normally.
\<close>

theorem missing_category_counterexample:
  "select_elements (static_browser demo_doc)
     (demo_service\<lparr>typology_dict := Map.empty, elements := [], parameters := []\<rparr>) (start ()) =
     (Inr (), start ()) \<and>
   select_parameters (static_browser demo_doc)
     (demo_service\<lparr>typology_dict := Map.empty, elements := [], parameters := []\<rparr>) (start ()) =
     (Inr (), start ())"
  by (simp add: select_elements_def select_parameters_def)

subsection \<open>Download finalization\<close>

lemma wait_loop_never_ready:
  "(\<forall>n. elapsed \<le> n \<and> int n < timeout \<longrightarrow>
        \<not> path_exists os n p \<or> open_append os n p = Some PermissionError) \<Longrightarrow>
   wait_for_downloaded_file_loop os p timeout elapsed = Inr None"
proof (induction os p timeout elapsed rule: wait_for_downloaded_file_loop.induct)
  case (1 os full_path timeout elapsed)
  show ?case
  proof (cases "int elapsed < timeout")
    case False
    then show ?thesis by simp
  next
    case True
    have later: "\<forall>n. elapsed + 1 \<le> n \<and> int n < timeout \<longrightarrow>
        \<not> path_exists os n full_path \<or> open_append os n full_path = Some PermissionError"
      using "1.prems" by auto
    have now: "\<not> path_exists os elapsed full_path \<or> open_append os elapsed full_path = Some PermissionError"
      using "1.prems" True by auto
    show ?thesis
    proof (cases "path_exists os elapsed full_path")
      case False
      with True later "1.IH"(2) show ?thesis by simp
    next
      case ex: True
      with now have locked: "open_append os elapsed full_path = Some PermissionError" by simp
      from "1.IH"(1) [OF True ex locked _ later]
      have "wait_for_downloaded_file_loop os full_path timeout (elapsed + 1) = Inr None" by simp
      with True ex locked show ?thesis by simp
    qed
  qed
qed

lemma download_data_not_found:
  "wait_for_downloaded_file os cfg (default_filename cfg) (max_download_wait cfg) = Inr None \<Longrightarrow>
   download_data_body b os cfg day month year w =
     (case until_presence b (XPath (table_check_xpath cfg)) (page w) of
        Inl e \<Rightarrow> (Inl e, w)
      | Inr table_check \<Rightarrow>
          (case until_clickable b (XPath (download_button_xpath cfg)) (page w) of
             Inl e \<Rightarrow> (Inl e, w)
           | Inr download_button \<Rightarrow>
               (case download_checked_click b (XPath (download_button_xpath cfg)) w of
                  (Inl e, w1) \<Rightarrow> (Inl e, w1)
                | (Inr u, w1) \<Rightarrow> (Inl FileNotFoundError, w1))))"
  by (simp add: download_data_body_def split: sum.splits prod.splits)

text \<open>
  Claim C7 (as amended). Take two histories of the download directory over the whole
  timeout: in the first the expected file never appears; in the second, whenever the file
  is there, the write-lock probe (\<open>open(path, 'ab')\<close>) fails with \<open>PermissionError\<close>. In
  both, \<open>_wait_for_downloaded_file\<close> returns \<open>None\<close>, and \<open>download_data\<close> ends the same way
  in both: once the download button has been clicked it raises \<open>FileNotFoundError\<close>. The two
  timeouts give one and the same result.
\<close>

theorem timeouts_indistinguishable:
  assumes never: "\<forall>n. int n < max_download_wait cfg \<longrightarrow>
             \<not> path_exists os1 n (download_path os1 cfg (default_filename cfg))"
      and locked: "\<forall>n. int n < max_download_wait cfg \<longrightarrow>
             path_exists os2 n (download_path os2 cfg (default_filename cfg)) \<longrightarrow>
             open_append os2 n (download_path os2 cfg (default_filename cfg)) = Some PermissionError"
  shows "wait_for_downloaded_file os1 cfg (default_filename cfg) (max_download_wait cfg) = Inr None \<and>
         wait_for_downloaded_file os2 cfg (default_filename cfg) (max_download_wait cfg) = Inr None \<and>
         download_data b os1 cfg day month year w = download_data b os2 cfg day month year w \<and>
         (\<forall>w1. download_checked_click b (XPath (download_button_xpath cfg)) w = (Inr (), w1) \<and>
               until_presence b (XPath (table_check_xpath cfg)) (page w) \<noteq> Inl TimeoutException \<and>
               until_clickable b (XPath (download_button_xpath cfg)) (page w) \<noteq> Inl TimeoutException \<longrightarrow>
               download_data b os1 cfg day month year w =
                 (Inl FileNotFoundError, log_add ErrorDownloadData w1))"
proof -
  have r1: "wait_for_downloaded_file os1 cfg (default_filename cfg) (max_download_wait cfg) = Inr None"
    unfolding wait_for_downloaded_file_def using never by (intro wait_loop_never_ready) auto
  have r2: "wait_for_downloaded_file os2 cfg (default_filename cfg) (max_download_wait cfg) = Inr None"
    unfolding wait_for_downloaded_file_def using locked by (intro wait_loop_never_ready) auto
  have same: "download_data b os1 cfg day month year w = download_data b os2 cfg day month year w"
    by (simp add: download_data_def download_data_not_found [OF r1] download_data_not_found [OF r2])
  have nf: "\<forall>w1. download_checked_click b (XPath (download_button_xpath cfg)) w = (Inr (), w1) \<and>
               until_presence b (XPath (table_check_xpath cfg)) (page w) \<noteq> Inl TimeoutException \<and>
               until_clickable b (XPath (download_button_xpath cfg)) (page w) \<noteq> Inl TimeoutException \<longrightarrow>
               download_data b os1 cfg day month year w =
                 (Inl FileNotFoundError, log_add ErrorDownloadData w1)"
    by (auto simp: download_data_def download_data_not_found [OF r1] until_presence_def until_clickable_def
        split: sum.splits option.splits if_splits)
  from r1 r2 same nf show ?thesis by blast
qed

theorem timeouts_indistinguishable_witness:
  "wait_for_downloaded_file os_never_appears demo_download_config ''QuickAnalysis.xlsx'' 3 = Inr None \<and>
   wait_for_downloaded_file os_stays_locked demo_download_config ''QuickAnalysis.xlsx'' 3 = Inr None \<and>
   download_data (static_browser demo_doc) os_never_appears demo_download_config None None None (start ()) =
     (Inl FileNotFoundError, \<lparr>page = (), clicks = [XPath ''//button[2]''], logged = [ErrorDownloadData]\<rparr>)"
proof -
  have p1: "download_path os_never_appears demo_download_config (default_filename demo_download_config) =
      ''/data/QuickAnalysis.xlsx''" by code_simp
  have p2: "download_path os_stays_locked demo_download_config (default_filename demo_download_config) =
      ''/data/QuickAnalysis.xlsx''" by code_simp
  have never: "\<forall>n. int n < max_download_wait demo_download_config \<longrightarrow>
             \<not> path_exists os_never_appears n
                 (download_path os_never_appears demo_download_config (default_filename demo_download_config))"
    by (simp add: os_never_appears_def)
  have locked: "\<forall>n. int n < max_download_wait demo_download_config \<longrightarrow>
             path_exists os_stays_locked n
               (download_path os_stays_locked demo_download_config (default_filename demo_download_config)) \<longrightarrow>
             open_append os_stays_locked n
               (download_path os_stays_locked demo_download_config (default_filename demo_download_config))
               = Some PermissionError"
    by (simp add: os_stays_locked_def)
  have c: "download_checked_click (static_browser demo_doc)
             (XPath (download_button_xpath demo_download_config)) (start ()) =
           (Inr (), \<lparr>page = (), clicks = [XPath ''//button[2]''], logged = []\<rparr>)"
    by code_simp
  have u1: "until_presence (static_browser demo_doc) (XPath (table_check_xpath demo_download_config))
              (page (start ())) \<noteq> Inl TimeoutException" by code_simp
  have u2: "until_clickable (static_browser demo_doc) (XPath (download_button_xpath demo_download_config))
              (page (start ())) \<noteq> Inl TimeoutException" by code_simp
  have f: "default_filename demo_download_config = ''QuickAnalysis.xlsx''"
          "max_download_wait demo_download_config = 3"
    by (simp_all add: demo_download_config_def)
  note th = timeouts_indistinguishable [OF never locked, of "static_browser demo_doc" None None None "start ()"]
  from th have r: "wait_for_downloaded_file os_never_appears demo_download_config ''QuickAnalysis.xlsx'' 3 = Inr None"
      "wait_for_downloaded_file os_stays_locked demo_download_config ''QuickAnalysis.xlsx'' 3 = Inr None"
    by (simp_all add: f)
  from th c u1 u2 have
    "download_data (static_browser demo_doc) os_never_appears demo_download_config None None None (start ()) =
       (Inl FileNotFoundError,
        log_add ErrorDownloadData \<lparr>page = (), clicks = [XPath ''//button[2]''], logged = []\<rparr>)"
    by blast
  with r show ?thesis by (simp add: log_add_def)
qed

text \<open>
  Claim C7 as stated fails: with a timeout of three seconds, a file that never appears and a
  file that is there from the first look on but stays locked give equal results, both of
  \<open>_wait_for_downloaded_file\<close> and of \<open>download_data\<close>.
\<close>

theorem timeouts_distinct_counterexample:
  "download_data (static_browser demo_doc) os_never_appears demo_download_config None None None (start ()) =
   download_data (static_browser demo_doc) os_stays_locked demo_download_config None None None (start ()) \<and>
   wait_for_downloaded_file os_never_appears demo_download_config ''QuickAnalysis.xlsx'' 3 =
   wait_for_downloaded_file os_stays_locked demo_download_config ''QuickAnalysis.xlsx'' 3"
  by code_simp

subsection \<open>Paginated table extraction\<close>

lemma page_after_0: "page_after b x s 0 = s"
  by (simp add: page_after_def)

lemma page_after_Suc: "page_after b x (after_click b (XPath x) s) k = page_after b x s (Suc k)"
  by (simp add: page_after_def funpow_swap1)

lemma checked_click_raises:
  "locate b (page w) el = Some e \<Longrightarrow> \<not> selected e \<Longrightarrow> \<not> displayed e \<Longrightarrow>
   checked_click b el w = (Inl ElementNotInteractableException, log_add ErrorClick w)"
  by (simp add: checked_click_def is_selected_def click_def)

lemma round_selected:
  "locate b (page w) el = Some e \<Longrightarrow> selected e \<Longrightarrow> checked_click b el w = (Inr (), w)"
  by (simp add: checked_click_def is_selected_def)

lemma round_clicked:
  "locate b (page w) el = Some e \<Longrightarrow> \<not> selected e \<Longrightarrow> displayed e \<Longrightarrow>
   checked_click b el w =
     (Inr (), w\<lparr>page := after_click b el (page w), clicks := clicks w @ [el]\<rparr>)"
  by (simp add: checked_click_def is_selected_def click_def)

lemma world_after_0: "world_after b x w 0 = w"
  by (simp add: world_after_def)

lemma world_after_Suc:
  "world_after b x (snd (checked_click b (XPath x) w)) k = world_after b x w (Suc k)"
  by (induction k) (simp_all add: world_after_def)

lemma world_after_fixed:
  "snd (checked_click b (XPath x) w) = w \<Longrightarrow> world_after b x w k = w"
  by (induction k) (simp_all add: world_after_def)

lemma pagination_goes_on:
  assumes "\<not> pagination_ends b nx s"
  obtains control cls where "locate b s (XPath nx) = Some control"
    and "class_attr control = Some cls" and "\<not> sublist ''disabled'' cls"
    and "selected control \<or> displayed control"
  using assms by (auto simp: pagination_ends_def split: option.splits)

lemma extract_loop_last:
  assumes "locate b (page w) (XPath tx) = Some t"
      and "pagination_ends b nx (page w)"
  shows "\<exists>w'. extract_table_loop b nx tx w data =
                 Some (Inr (data @ map (\<lambda>cells. map strip cells) (tbody_tr t)), w') \<and>
              page w' = page w \<and> clicks w' = clicks w"
  using assms
  by (subst extract_table_loop.simps)
     (auto simp: until_presence_def find_element_def pagination_ends_def checked_click_raises
        log_add_def Let_def split: option.splits)

lemma extract_loop_next:
  assumes "locate b (page w) (XPath tx) = Some t"
      and "\<not> pagination_ends b nx (page w)"
  shows "extract_table_loop b nx tx w data =
           extract_table_loop b nx tx (snd (checked_click b (XPath nx) w))
             (data @ map (\<lambda>cells. map strip cells) (tbody_tr t))"
proof -
  from assms(2) obtain control cls where
    c: "locate b (page w) (XPath nx) = Some control" "class_attr control = Some cls"
       "\<not> sublist ''disabled'' cls" "selected control \<or> displayed control"
    by (rule pagination_goes_on)
  have "\<exists>w1. checked_click b (XPath nx) w = (Inr (), w1)"
    using c(1,4) round_selected [OF c(1)] round_clicked [OF c(1)] by (cases "selected control") auto
  then obtain w1 where w1: "checked_click b (XPath nx) w = (Inr (), w1)" ..
  show ?thesis
    using assms(1) c(1,2,3) w1
    by (subst extract_table_loop.simps)
       (simp add: until_presence_def find_element_def Let_def)
qed

lemma extract_loop_pages:
  assumes "\<forall>k\<le>n. locate b (page (world_after b nx w k)) (XPath tx) \<noteq> None"
      and "\<forall>k<n. \<not> pagination_ends b nx (page (world_after b nx w k))"
      and "pagination_ends b nx (page (world_after b nx w n))"
  shows "\<exists>w'. extract_table_loop b nx tx w data =
                 Some (Inr (data @ concat (map (\<lambda>k. page_rows b tx (page (world_after b nx w k))) [0..<Suc n])), w') \<and>
              page w' = page (world_after b nx w n) \<and>
              clicks w' = clicks (world_after b nx w n)"
  using assms
proof (induction n arbitrary: w data)
  case 0
  then obtain t where t: "locate b (page w) (XPath tx) = Some t"
    by (auto simp: world_after_0)
  from 0 have "pagination_ends b nx (page w)" by (simp add: world_after_0)
  from extract_loop_last [OF t this, of data] t show ?case
    by (simp add: world_after_0 page_rows_def)
next
  case (Suc n)
  from Suc.prems(1) obtain t where t: "locate b (page w) (XPath tx) = Some t"
    by (force simp: world_after_0 dest: spec [of _ 0])
  from Suc.prems(2) have nxt: "\<not> pagination_ends b nx (page w)"
    by (force simp: world_after_0 dest: spec [of _ 0])
  define w1 where "w1 = snd (checked_click b (XPath nx) w)"
  let ?d1 = "data @ map (\<lambda>cells. map strip cells) (tbody_tr t)"
  have step: "extract_table_loop b nx tx w data = extract_table_loop b nx tx w1 ?d1"
    unfolding w1_def by (rule extract_loop_next [OF t nxt])
  have sh: "\<And>k. world_after b nx w1 k = world_after b nx w (Suc k)"
    unfolding w1_def by (rule world_after_Suc)
  have a1: "\<forall>k\<le>n. locate b (page (world_after b nx w1 k)) (XPath tx) \<noteq> None"
    using Suc.prems(1) by (simp add: sh)
  have a2: "\<forall>k<n. \<not> pagination_ends b nx (page (world_after b nx w1 k))"
    using Suc.prems(2) by (simp add: sh)
  have a3: "pagination_ends b nx (page (world_after b nx w1 n))"
    using Suc.prems(3) by (simp add: sh)
  from Suc.IH [OF a1 a2 a3, of ?d1] obtain w' where
    w': "extract_table_loop b nx tx w1 ?d1 =
           Some (Inr (?d1 @ concat (map (\<lambda>k. page_rows b tx (page (world_after b nx w1 k))) [0..<Suc n])), w')"
        "page w' = page (world_after b nx w1 n)"
        "clicks w' = clicks (world_after b nx w1 n)"
    by blast
  have rows0: "page_rows b tx (page (world_after b nx w 0)) = map (\<lambda>cells. map strip cells) (tbody_tr t)"
    using t by (simp add: world_after_0 page_rows_def)
  have idx: "[0..<Suc (Suc n)] = 0 # map Suc [0..<Suc n]"
    by (simp only: map_Suc_upt upt_conv_Cons [of 0 "Suc (Suc n)"] zero_less_Suc)
  have cat: "concat (map (\<lambda>k. page_rows b tx (page (world_after b nx w k))) [0..<Suc (Suc n)]) =
        map (\<lambda>cells. map strip cells) (tbody_tr t) @
        concat (map (\<lambda>k. page_rows b tx (page (world_after b nx w1 k))) [0..<Suc n])"
    unfolding idx by (simp add: rows0 sh comp_def del: upt_Suc)
  show ?case
    using step w' by (intro exI [of _ w']) (simp add: cat sh del: upt_Suc)
qed

lemma clicked_rounds:
  assumes "\<forall>k<n. \<not> pagination_ends b nx (page (world_after b nx w k))"
      and "pagination_ends b nx (page (world_after b nx w n))"
      and "k \<le> n"
  shows "page (world_after b nx w k) = page_after b nx (page w) k \<and>
         clicks (world_after b nx w k) = clicks w @ replicate k (XPath nx)"
  using assms
proof (induction n arbitrary: w k)
  case 0
  then show ?case by (simp add: world_after_0 page_after_0)
next
  case (Suc n)
  show ?case
  proof (cases k)
    case 0
    then show ?thesis by (simp add: world_after_0 page_after_0)
  next
    case (Suc j)
    from Suc.prems(1) have nxt: "\<not> pagination_ends b nx (page w)"
      by (force simp: world_after_0 dest: spec [of _ 0])
    then obtain control cls where
      c: "locate b (page w) (XPath nx) = Some control" "selected control \<or> displayed control"
      by (rule pagination_goes_on)
    have unselected: "\<not> selected control"
    proof
      assume "selected control"
      from round_selected [OF c(1) this] have "snd (checked_click b (XPath nx) w) = w" by simp
      then have "world_after b nx w (Suc n) = w" by (rule world_after_fixed)
      with Suc.prems(2) nxt show False by simp
    qed
    with c(2) have shown: "displayed control" by simp
    define w1 where "w1 = w\<lparr>page := after_click b (XPath nx) (page w), clicks := clicks w @ [XPath nx]\<rparr>"
    have w1: "snd (checked_click b (XPath nx) w) = w1"
      unfolding w1_def using round_clicked [OF c(1) unselected shown] by simp
    have sh: "\<And>i. world_after b nx w1 i = world_after b nx w (Suc i)"
      unfolding w1 [symmetric] by (rule world_after_Suc)
    have a1: "\<forall>i<n. \<not> pagination_ends b nx (page (world_after b nx w1 i))"
      using Suc.prems(1) by (simp add: sh)
    have a2: "pagination_ends b nx (page (world_after b nx w1 n))"
      using Suc.prems(2) by (simp add: sh)
    have jn: "j \<le> n" using Suc.prems(3) \<open>k = Suc j\<close> by simp
    from Suc.IH [OF a1 a2 jn]
    have "page (world_after b nx w1 j) = page_after b nx (page w1) j"
         "clicks (world_after b nx w1 j) = clicks w1 @ replicate j (XPath nx)"
      by simp_all
    then show ?thesis
      unfolding \<open>k = Suc j\<close> sh
      by (simp add: w1_def page_after_Suc replicate_app_Cons_same)
  qed
qed

lemma strip_filter:
  "map strip (filter (\<lambda>header. strip header \<noteq> []) hs) = filter (\<lambda>h. h \<noteq> []) (map strip hs)"
  by (induction hs) auto

lemma headers_filter:
  "table_headers t = filter (\<lambda>h. h \<noteq> []) (map strip (thead_th t))"
  by (simp add: table_headers_def strip_filter)

lemma extract_table_frame:
  assumes "locate b (page w) (XPath tx) = Some t"
      and "extract_table_loop b nx tx w [] = Some (Inr data, w')"
  shows "extract_table b nx tx w =
           Some (if table_headers t = [] \<or> data = [] \<or> widest data = length (table_headers t)
                 then Inr (table_headers t, data) else Inl ValueError, w')"
  using assms
  by (simp add: extract_table_def until_presence_def pd_DataFrame_def Let_def)

text \<open>
  Claim C4 (as amended). The pagination loop ends on a page exactly when the next-page
  control is absent there, or has no \<open>class\<close> attribute, or carries \<open>disabled\<close> in its
  \<open>class\<close>, or raises on the click (it is not displayed and does not report itself
  selected). Let the table be present on every page the loop reads, let the loop go on
  through the first \<open>n\<close> pages and end on the page after them. Then the loop returns: it
  has clicked the control exactly \<open>n\<close> times, it stops on the \<open>n\<close>-th page after the
  first, and its accumulator is the concatenation of the pages' body rows (cell texts as
  the code reads them, stripped) in page-then-row order, with nothing dropped, merged or
  deduplicated and with rows of any width; for \<open>n = 0\<close> it is exactly the rows of the one
  page. The widths are checked when the frame is built from the accumulator: the extraction
  returns the headers and these rows when no header was kept, or there is no row, or the
  widest row has as many cells as there are headers; otherwise it raises \<open>ValueError\<close>.
\<close>

theorem extraction_concatenates_pages:
  assumes "locate b (page w) (XPath tx) = Some t"
      and "\<forall>k\<le>n. locate b (page (world_after b nx w k)) (XPath tx) \<noteq> None"
      and "\<forall>k<n. \<not> pagination_ends b nx (page (world_after b nx w k))"
      and "pagination_ends b nx (page (world_after b nx w n))"
      and "rows = concat (map (\<lambda>k. page_rows b tx (page_after b nx (page w) k)) [0..<Suc n])"
  shows "\<exists>w'. extract_table_loop b nx tx w [] = Some (Inr rows, w') \<and>
           page w' = page_after b nx (page w) n \<and>
           clicks w' = clicks w @ replicate n (XPath nx) \<and>
           extract_table b nx tx w =
             Some (if table_headers t = [] \<or> rows = [] \<or> widest rows = length (table_headers t)
                   then Inr (table_headers t, rows) else Inl ValueError, w')"
proof -
  have pages: "page (world_after b nx w k) = page_after b nx (page w) k"
    and cl: "clicks (world_after b nx w k) = clicks w @ replicate k (XPath nx)" if "k \<le> n" for k
    using clicked_rounds [OF assms(3,4) that] by simp_all
  have "map (\<lambda>k. page_rows b tx (page (world_after b nx w k))) [0..<Suc n] =
        map (\<lambda>k. page_rows b tx (page_after b nx (page w) k)) [0..<Suc n]"
    by (rule map_cong [OF refl]) (auto simp: pages)
  then have rows: "concat (map (\<lambda>k. page_rows b tx (page (world_after b nx w k))) [0..<Suc n]) = rows"
    unfolding assms(5) by (rule arg_cong)
  from extract_loop_pages [OF assms(2,3,4), where data = "[]"] obtain w' where
    w': "extract_table_loop b nx tx w [] = Some (Inr rows, w')"
        "page w' = page (world_after b nx w n)" "clicks w' = clicks (world_after b nx w n)"
    unfolding rows by auto
  have p: "page w' = page_after b nx (page w) n" using w'(2) pages [of n] by simp
  have c: "clicks w' = clicks w @ replicate n (XPath nx)" using w'(3) cl [of n] by simp
  note f = extract_table_frame [OF assms(1) w'(1)]
  from w'(1) p c f show ?thesis by blast
qed

lemma world_after_step:
  "world_after b x w (Suc k) = snd (checked_click b (XPath x) (world_after b x w k))"
  by (simp add: world_after_def)

lemma paged_browser_world_after:
  "world_after paged_browser ''//li[2]'' w k =
     w\<lparr>page := page w + k, clicks := clicks w @ replicate k (XPath ''//li[2]'')\<rparr>"
proof (induction k)
  case 0
  show ?case by (simp add: world_after_0)
next
  case (Suc k)
  let ?w = "w\<lparr>page := page w + k, clicks := clicks w @ replicate k (XPath ''//li[2]'')\<rparr>"
  have l: "locate paged_browser (page ?w) (XPath ''//li[2]'') =
             Some (plain_element\<lparr>class_attr := Some (if page w + k < 2 then ''next'' else ''next disabled'')\<rparr>)"
    by (simp add: paged_browser_def)
  have "checked_click paged_browser (XPath ''//li[2]'') ?w =
          (Inr (), ?w\<lparr>page := after_click paged_browser (XPath ''//li[2]'') (page ?w),
                       clicks := clicks ?w @ [XPath ''//li[2]'']\<rparr>)"
    by (rule round_clicked [OF l]) (simp_all add: plain_element_def)
  then show ?case
    unfolding world_after_step Suc
    by (simp add: paged_browser_def replicate_append_same)
qed

lemma paged_browser_page_after: "page_after paged_browser ''//li[2]'' s k = s + k"
  by (induction k) (simp_all add: page_after_def paged_browser_def)

lemma not_disabled_next: "\<not> sublist ''disabled'' ''next''"
  by code_simp

lemma disabled_next: "sublist ''disabled'' ''next disabled''"
  by code_simp

theorem extraction_concatenates_pages_witness:
  "(\<exists>w'. extract_table_loop paged_browser ''//li[2]'' ''//table'' (start 0) [] =
       Some (Inr [[''00:00'', ''1''], [''01:00'', ''2''], [''01:00'', ''2''], [''02:00''],
                  [''03:00'', ''4'', ''x'']], w') \<and>
     page w' = 2 \<and> clicks w' = [XPath ''//li[2]'', XPath ''//li[2]''] \<and>
     extract_table paged_browser ''//li[2]'' ''//table'' (start 0) =
       Some (Inr ([''Hora'', ''Valor'', ''Nota''],
              [[''00:00'', ''1''], [''01:00'', ''2''], [''01:00'', ''2''], [''02:00''],
               [''03:00'', ''4'', ''x'']]), w')) \<and>
   (\<exists>w'. extract_table (static_browser demo_doc) ''//li[2]'' ''//table'' (start ()) =
       Some (Inr ([''Fecha'', ''Equipo'', ''Potencia''],
              [[''01/02/2025'', ''a'', ''10''], [''02/02/2025'', ''b'', ''12'']]), w') \<and>
     clicks w' = [])"
proof -
  let ?R = "[[''00:00'', ''1''], [''01:00'', ''2''], [''01:00'', ''2''], [''02:00''],
             [''03:00'', ''4'', ''x'']]"
  let ?t = "plain_element
              \<lparr>thead_th := [''Hora'', ''Valor'', ''Nota''],
               tbody_tr := [[''00:00'', '' 1 ''], [''01:00'', ''2'']]\<rparr>"
  have a0: "locate paged_browser (page (start 0)) (XPath ''//table'') = Some ?t"
    by (simp add: paged_browser_def start_def)
  have a1: "\<forall>k\<le>2. locate paged_browser (page (world_after paged_browser ''//li[2]'' (start 0) k))
              (XPath ''//table'') \<noteq> None"
    by (simp add: paged_browser_def)
  have a2: "\<forall>k<2. \<not> pagination_ends paged_browser ''//li[2]''
              (page (world_after paged_browser ''//li[2]'' (start 0) k))"
    by (simp add: paged_browser_world_after start_def)
       (simp add: pagination_ends_def paged_browser_def plain_element_def not_disabled_next)
  have a3: "pagination_ends paged_browser ''//li[2]''
              (page (world_after paged_browser ''//li[2]'' (start 0) 2))"
    by (simp add: paged_browser_world_after start_def)
       (simp add: pagination_ends_def paged_browser_def plain_element_def disabled_next)
  have a4: "?R = concat (map (\<lambda>k. page_rows paged_browser ''//table''
                 (page_after paged_browser ''//li[2]'' (page (start 0)) k)) [0..<Suc 2])"
    unfolding paged_browser_page_after by code_simp
  have h: "table_headers ?t = [''Hora'', ''Valor'', ''Nota'']" by code_simp
  have wd: "widest ?R = 3" by code_simp
  have three: "\<exists>w'. extract_table_loop paged_browser ''//li[2]'' ''//table'' (start 0) [] =
       Some (Inr ?R, w') \<and>
     page w' = 2 \<and> clicks w' = [XPath ''//li[2]'', XPath ''//li[2]''] \<and>
     extract_table paged_browser ''//li[2]'' ''//table'' (start 0) =
       Some (Inr ([''Hora'', ''Valor'', ''Nota''], ?R), w')"
    using extraction_concatenates_pages [OF a0 a1 a2 a3 a4]
    unfolding h wd by (simp add: paged_browser_page_after start_def numeral_2_eq_2)
  let ?b = "static_browser demo_doc"
  let ?D = "[[''01/02/2025'', ''a'', ''10''], [''02/02/2025'', ''b'', ''12'']]"
  have b0: "locate ?b (page (start ())) (XPath ''//table'') = Some demo_table" by code_simp
  have l: "locate ?b () (XPath ''//table'') \<noteq> None" by code_simp
  have b1: "\<forall>k\<le>0. locate ?b (page (world_after ?b ''//li[2]'' (start ()) k)) (XPath ''//table'') \<noteq> None"
    using l by simp
  have b2: "\<forall>k<0. \<not> pagination_ends ?b ''//li[2]'' (page (world_after ?b ''//li[2]'' (start ()) k))"
    by simp
  have lp: "pagination_ends ?b ''//li[2]'' ()" by code_simp
  have b3: "pagination_ends ?b ''//li[2]'' (page (world_after ?b ''//li[2]'' (start ()) 0))"
    using lp by simp
  have pr: "page_rows ?b ''//table'' () = ?D"
    by code_simp
  have b4: "?D = concat (map (\<lambda>k. page_rows ?b ''//table''
                 (page_after ?b ''//li[2]'' (page (start ())) k)) [0..<Suc 0])"
    using pr by simp
  have h1: "table_headers demo_table = [''Fecha'', ''Equipo'', ''Potencia'']" by code_simp
  have wd1: "widest ?D = 3" by code_simp
  have one: "\<exists>w'. extract_table ?b ''//li[2]'' ''//table'' (start ()) =
       Some (Inr ([''Fecha'', ''Equipo'', ''Potencia''], ?D), w') \<and> clicks w' = []"
    using extraction_concatenates_pages [OF b0 b1 b2 b3 b4]
    unfolding h1 wd1 by (auto simp: start_def)
  from three one show ?thesis by (rule conjI)
qed

text \<open>
  Claim C4 as stated fails in two ways. A next-page control that is present and clickable
  and has no \<open>class\<close> attribute ends the loop: the extraction returns the row of the first
  page only, although a click on the control shows a second page with another row. And the
  width of the rows is checked against the headers: on a one-page table with two headers
  kept and rows of three cells the extraction raises \<open>ValueError\<close>.
\<close>

theorem classless_control_counterexample:
  "until_clickable classless_browser (XPath ''//a'') 0 = Inr (plain_element\<lparr>class_attr := None\<rparr>) \<and>
   page_rows classless_browser ''//table'' (after_click classless_browser (XPath ''//a'') 0) =
     [[''01:00'', ''2'']] \<and>
   extract_table classless_browser ''//a'' ''//table'' (start 0) =
     Some (Inr ([''Hora'', ''Valor''], [[''00:00'', ''1'']]), start 0) \<and>
   page_rows (static_browser partly_blank_doc) ''//table'' () =
     [[''01/02/2025'', ''a'', ''10''], [''02/02/2025'', ''b'', ''12'']] \<and>
   pagination_ends (static_browser partly_blank_doc) ''//li[2]'' () \<and>
   extract_table (static_browser partly_blank_doc) ''//li[2]'' ''//table'' (start ()) =
     Some (Inl ValueError, start ())"
  by code_simp

text \<open>
  Claim C8. The headers of \<open>_extract_table\<close> are the stripped texts of the header cells,
  in document order, without those that are empty after stripping; every blank header cell
  makes them one shorter than the header row. So when a header cell is blank, the headers
  are shorter than every body row that has at least as many cells as the header row. What
  becomes of them once the loop has returned the rows: an empty header list is returned
  with rows of any width (the frame gets no column names), a non-empty one is returned when
  the widest row has as many cells as there are headers, and otherwise the frame raises
  \<open>ValueError\<close>.
\<close>

theorem blank_headers_omitted:
  assumes "locate b (page w) (XPath tx) = Some t"
  shows "table_headers t = filter (\<lambda>h. h \<noteq> []) (map strip (thead_th t)) \<and>
         length (table_headers t) + length (filter (\<lambda>h. strip h = []) (thead_th t)) =
           length (thead_th t) \<and>
         (\<forall>row \<in> set (page_rows b tx (page w)).
            (\<exists>h \<in> set (thead_th t). strip h = []) \<and> length (thead_th t) \<le> length row \<longrightarrow>
            length (table_headers t) < length row) \<and>
         (\<forall>data w'. extract_table_loop b nx tx w [] = Some (Inr data, w') \<longrightarrow>
            extract_table b nx tx w =
              Some (if table_headers t = [] \<or> data = [] \<or> widest data = length (table_headers t)
                    then Inr (table_headers t, data) else Inl ValueError, w'))"
proof -
  have cnt: "length (table_headers t) + length (filter (\<lambda>h. strip h = []) (thead_th t)) =
               length (thead_th t)"
    unfolding table_headers_def
    using sum_length_filter_compl [of "\<lambda>h. strip h \<noteq> []" "thead_th t"] by simp
  have pos: "0 < length (filter (\<lambda>h. strip h = []) (thead_th t))"
    if "\<exists>h \<in> set (thead_th t). strip h = []"
    using that by (simp add: filter_empty_conv)
  have short: "length (table_headers t) < length row"
    if "(\<exists>h \<in> set (thead_th t). strip h = []) \<and> length (thead_th t) \<le> length row" for row :: "string list"
    using pos cnt that by linarith
  have fr: "\<forall>data w'. extract_table_loop b nx tx w [] = Some (Inr data, w') \<longrightarrow>
            extract_table b nx tx w =
              Some (if table_headers t = [] \<or> data = [] \<or> widest data = length (table_headers t)
                    then Inr (table_headers t, data) else Inl ValueError, w')"
    using extract_table_frame [OF assms] by blast
  from headers_filter [of t] cnt short fr show ?thesis by blast
qed

theorem blank_headers_omitted_witness:
  "table_headers (demo_table\<lparr>thead_th := [''Fecha'', ''  '', '' Potencia '']\<rparr>) = [''Fecha'', ''Potencia''] \<and>
   page_rows (static_browser partly_blank_doc) ''//table'' () =
     [[''01/02/2025'', ''a'', ''10''], [''02/02/2025'', ''b'', ''12'']] \<and>
   length (table_headers (demo_table\<lparr>thead_th := [''Fecha'', ''  '', '' Potencia '']\<rparr>)) <
     length [''01/02/2025'', ''a'', ''10''] \<and>
   extract_table (static_browser partly_blank_doc) ''//li[2]'' ''//table'' (start ()) =
     Some (Inl ValueError, start ()) \<and>
   table_headers (demo_table\<lparr>thead_th := [''  '', [], '' '']\<rparr>) = [] \<and>
   extract_table (static_browser blank_header_doc) ''//li[2]'' ''//table'' (start ()) =
     Some (Inr ([], [[''01/02/2025'', ''a'', ''10''], [''02/02/2025'', ''b'', ''12'']]), start ())"
proof -
  let ?D = "[[''01/02/2025'', ''a'', ''10''], [''02/02/2025'', ''b'', ''12'']]"
  let ?p = "demo_table\<lparr>thead_th := [''Fecha'', ''  '', '' Potencia '']\<rparr>"
  let ?e = "demo_table\<lparr>thead_th := [''  '', [], '' '']\<rparr>"
  have lp: "locate (static_browser partly_blank_doc) (page (start ())) (XPath ''//table'') = Some ?p"
    by code_simp
  have le: "locate (static_browser blank_header_doc) (page (start ())) (XPath ''//table'') = Some ?e"
    by code_simp
  have rows: "page_rows (static_browser partly_blank_doc) ''//table'' () = ?D"
    by code_simp
  have loop_p: "extract_table_loop (static_browser partly_blank_doc) ''//li[2]'' ''//table'' (start ()) [] =
                  Some (Inr ?D, start ())"
    by code_simp
  have loop_e: "extract_table_loop (static_browser blank_header_doc) ''//li[2]'' ''//table'' (start ()) [] =
                  Some (Inr ?D, start ())"
    by code_simp
  have blank: "\<exists>h \<in> set (thead_th ?p). strip h = []"
  proof
    show "''  '' \<in> set (thead_th ?p)" by simp
    show "strip ''  '' = []" by code_simp
  qed
  have wd: "widest ?D = 3" by code_simp
  have hp: "table_headers ?p = [''Fecha'', ''Potencia'']" by code_simp
  have he: "table_headers ?e = []" by code_simp
  note p = blank_headers_omitted [OF lp, of "''//li[2]''"]
  note e = blank_headers_omitted [OF le, of "''//li[2]''"]
  from p have p3:
    "\<forall>row \<in> set (page_rows (static_browser partly_blank_doc) ''//table'' (page (start ()))).
       (\<exists>h \<in> set (thead_th ?p). strip h = []) \<and> length (thead_th ?p) \<le> length row \<longrightarrow>
       length (table_headers ?p) < length row"
    by blast
  have mem: "[''01/02/2025'', ''a'', ''10''] \<in>
               set (page_rows (static_browser partly_blank_doc) ''//table'' (page (start ())))"
    using rows by (simp add: start_def)
  have len: "length (thead_th ?p) \<le> length [''01/02/2025'', ''a'', ''10'']" by simp
  from p3 mem blank len have short:
    "length (table_headers ?p) < length [''01/02/2025'', ''a'', ''10'']"
    by blast
  from p loop_p have
    "extract_table (static_browser partly_blank_doc) ''//li[2]'' ''//table'' (start ()) =
       Some (if table_headers ?p = [] \<or> ?D = [] \<or> widest ?D = length (table_headers ?p)
             then Inr (table_headers ?p, ?D) else Inl ValueError, start ())"
    by blast
  then have vp:
    "extract_table (static_browser partly_blank_doc) ''//li[2]'' ''//table'' (start ()) =
       Some (Inl ValueError, start ())"
    unfolding hp wd by simp
  from e loop_e have
    "extract_table (static_browser blank_header_doc) ''//li[2]'' ''//table'' (start ()) =
       Some (if table_headers ?e = [] \<or> ?D = [] \<or> widest ?D = length (table_headers ?e)
             then Inr (table_headers ?e, ?D) else Inl ValueError, start ())"
    by blast
  then have ve:
    "extract_table (static_browser blank_header_doc) ''//li[2]'' ''//table'' (start ()) =
       Some (Inr ([], ?D), start ())"
    unfolding he by simp
  from hp rows short vp he ve show ?thesis by blast
qed

subsection \<open>Calendar navigation\<close>

lemma page_after_add: "page_after b x (page_after b x s a) k = page_after b x s (k + a)"
  by (simp add: page_after_def funpow_add)

lemma click_prev:
  "prev_clickable b px (page w) \<Longrightarrow>
   find_element b (XPath px) (page w) \<noteq> Inl NoSuchElementException \<and>
   click b (XPath px) w =
     (Inr (), w\<lparr>page := after_click b (XPath px) (page w), clicks := clicks w @ [XPath px]\<rparr>)"
  by (auto simp: prev_clickable_def find_element_def click_def split: option.splits)

lemma header_after_0:
  "header_after b px sx s 0 = Some t \<Longrightarrow>
   \<exists>sw. until_visible b (XPath sx) s = Inr sw \<and> lower (elem_text sw) = t"
  by (auto simp: header_after_def page_after_0 split: sum.splits)

lemma header_after_Suc:
  "header_after b px sx (after_click b (XPath px) s) k = header_after b px sx s (Suc k)"
  by (simp add: header_after_def page_after_Suc)

lemma year_loop_step:
  assumes "year < current_year"
      and "prev_clickable b px (page w)"
      and "header_after b px sx (page w) (Suc 0) = Some t"
      and "header_year t = Some cy"
  shows "year_loop b year sx px current_year current_text w =
         year_loop b year sx px cy t
           (w\<lparr>page := after_click b (XPath px) (page w), clicks := clicks w @ [XPath px]\<rparr>)"
proof -
  from assms(3) obtain sw where sw:
    "until_visible b (XPath sx) (after_click b (XPath px) (page w)) = Inr sw" "lower (elem_text sw) = t"
    by (auto simp: header_after_def page_after_def split: sum.splits)
  from assms(4) obtain g where g: "search_d4 t = Some g" "int_of_digits g = cy"
    by (auto simp: header_year_def)
  from assms(2) obtain p where p: "locate b (page w) (XPath px) = Some p" "displayed p"
    by (auto simp: prev_clickable_def split: option.splits)
  show ?thesis
    using assms(1) sw g p
    by (subst year_loop.simps) (simp add: find_element_def click_def Let_def)
qed

lemma year_loop_run:
  assumes "\<forall>k<n. year < Y k"
      and "Y n = year"
      and "\<forall>k<n. prev_clickable b px (page_after b px (page w) k)"
      and "\<forall>k<n. header_after b px sx (page w) (Suc k) = Some (T (Suc k))"
      and "\<forall>k<n. header_year (T (Suc k)) = Some (Y (Suc k))"
  shows "year_loop b year sx px (Y 0) (T 0) w =
           Some (Inr (T n),
             w\<lparr>page := page_after b px (page w) n, clicks := clicks w @ replicate n (XPath px)\<rparr>)"
  using assms
proof (induction n arbitrary: w Y T)
  case 0
  then show ?case by (subst year_loop.simps) (simp add: page_after_0)
next
  case (Suc n)
  let ?w1 = "w\<lparr>page := after_click b (XPath px) (page w), clicks := clicks w @ [XPath px]\<rparr>"
  have s1: "year < Y 0" using Suc.prems(1) by simp
  have s2: "prev_clickable b px (page w)"
    using Suc.prems(3) by (force simp: page_after_0 dest: spec [of _ 0])
  have s3: "header_after b px sx (page w) (Suc 0) = Some (T (Suc 0))"
    using Suc.prems(4) by simp
  have s4: "header_year (T (Suc 0)) = Some (Y (Suc 0))"
    using Suc.prems(5) by simp
  have step: "year_loop b year sx px (Y 0) (T 0) w = year_loop b year sx px (Y (Suc 0)) (T (Suc 0)) ?w1"
    by (rule year_loop_step [OF s1 s2 s3 s4])
  have "year_loop b year sx px ((Y \<circ> Suc) 0) ((T \<circ> Suc) 0) ?w1 =
          Some (Inr ((T \<circ> Suc) n),
             ?w1\<lparr>page := page_after b px (page ?w1) n, clicks := clicks ?w1 @ replicate n (XPath px)\<rparr>)"
  proof (rule Suc.IH)
    show "\<forall>k<n. year < (Y \<circ> Suc) k" using Suc.prems(1) by simp
    show "(Y \<circ> Suc) n = year" using Suc.prems(2) by simp
    show "\<forall>k<n. prev_clickable b px (page_after b px (page ?w1) k)"
      using Suc.prems(3) by (simp add: page_after_Suc)
    show "\<forall>k<n. header_after b px sx (page ?w1) (Suc k) = Some ((T \<circ> Suc) (Suc k))"
      using Suc.prems(4) by (simp add: header_after_Suc)
    show "\<forall>k<n. header_year ((T \<circ> Suc) (Suc k)) = Some ((Y \<circ> Suc) (Suc k))"
      using Suc.prems(5) by simp
  qed
  with step show ?case
    by (simp add: page_after_Suc replicate_app_Cons_same)
qed

lemma month_loop_step:
  assumes "\<not> sublist (lower month) current_text"
      and "prev_clickable b px (page w)"
      and "header_after b px sx (page w) (Suc 0) = Some t"
  shows "month_loop b month sx px current_text w =
         month_loop b month sx px t
           (w\<lparr>page := after_click b (XPath px) (page w), clicks := clicks w @ [XPath px]\<rparr>)"
proof -
  from assms(3) obtain sw where sw:
    "until_visible b (XPath sx) (after_click b (XPath px) (page w)) = Inr sw" "lower (elem_text sw) = t"
    by (auto simp: header_after_def page_after_def split: sum.splits)
  from assms(2) obtain p where p: "locate b (page w) (XPath px) = Some p" "displayed p"
    by (auto simp: prev_clickable_def split: option.splits)
  show ?thesis
    using assms(1) sw p
    by (subst month_loop.simps) (simp add: find_element_def click_def)
qed

lemma month_loop_run:
  assumes "\<forall>k<n. \<not> sublist (lower month) (T k)"
      and "sublist (lower month) (T n)"
      and "\<forall>k<n. prev_clickable b px (page_after b px (page w) k)"
      and "\<forall>k<n. header_after b px sx (page w) (Suc k) = Some (T (Suc k))"
  shows "month_loop b month sx px (T 0) w =
           Some (Inr (),
             w\<lparr>page := page_after b px (page w) n, clicks := clicks w @ replicate n (XPath px)\<rparr>)"
  using assms
proof (induction n arbitrary: w T)
  case 0
  then show ?case by (subst month_loop.simps) (simp add: page_after_0)
next
  case (Suc n)
  let ?w1 = "w\<lparr>page := after_click b (XPath px) (page w), clicks := clicks w @ [XPath px]\<rparr>"
  have s1: "\<not> sublist (lower month) (T 0)" using Suc.prems(1) by simp
  have s2: "prev_clickable b px (page w)"
    using Suc.prems(3) by (force simp: page_after_0 dest: spec [of _ 0])
  have s3: "header_after b px sx (page w) (Suc 0) = Some (T (Suc 0))"
    using Suc.prems(4) by simp
  have step: "month_loop b month sx px (T 0) w = month_loop b month sx px (T (Suc 0)) ?w1"
    by (rule month_loop_step [OF s1 s2 s3])
  have "month_loop b month sx px ((T \<circ> Suc) 0) ?w1 =
          Some (Inr (),
             ?w1\<lparr>page := page_after b px (page ?w1) n, clicks := clicks ?w1 @ replicate n (XPath px)\<rparr>)"
  proof (rule Suc.IH)
    show "\<forall>k<n. \<not> sublist (lower month) ((T \<circ> Suc) k)" using Suc.prems(1) by simp
    show "sublist (lower month) ((T \<circ> Suc) n)" using Suc.prems(2) by simp
    show "\<forall>k<n. prev_clickable b px (page_after b px (page ?w1) k)"
      using Suc.prems(3) by (simp add: page_after_Suc)
    show "\<forall>k<n. header_after b px sx (page ?w1) (Suc k) = Some ((T \<circ> Suc) (Suc k))"
      using Suc.prems(4) by (simp add: header_after_Suc)
  qed
  with step show ?case
    by (simp add: page_after_Suc replicate_app_Cons_same)
qed

lemma open_widget:
  assumes "until_visible b (XPath ix) (page w) = Inr inp"
  shows "click b (XPath ix) w = (Inr (), opened b ix w)"
  using assms
  by (auto simp: until_visible_def click_def opened_def split: option.splits if_splits)

lemma select_date_body_opened:
  assumes "until_visible b (XPath ix) (page w) = Inr inp"
      and "until_visible b (ClassName cn) (page (opened b ix w)) = Inr c"
      and "until_visible b (XPath sx) (page (opened b ix w)) = Inr sw"
  shows "select_date_body b day month year ix cn sx px w =
     (case year_loop b year sx px
             (case search_d4 (lower (elem_text sw)) of Some g \<Rightarrow> int_of_digits g | None \<Rightarrow> year)
             (lower (elem_text sw)) (opened b ix w) of
        None \<Rightarrow> None
      | Some (Inl e, w2) \<Rightarrow> Some (Inl e, w2)
      | Some (Inr current_text', w2) \<Rightarrow>
          (case month_loop b month sx px current_text' w2 of
             None \<Rightarrow> None
           | Some (Inl e, w3) \<Rightarrow> Some (Inl e, w3)
           | Some (Inr u, w3) \<Rightarrow>
               (case until_clickable b (XPath (day_xpath day)) (page w3) of
                  Inl e \<Rightarrow> Some (Inl e, w3)
                | Inr day_element \<Rightarrow> Some (click b (XPath (day_xpath day)) w3))))"
  using assms open_widget [OF assms(1)]
  by (simp add: select_date_body_def Let_def)

lemma year_loop_forward:
  "current_year < year \<Longrightarrow>
   year_loop b year sx px current_year current_text w = Some (Inl NotImplementedError, w)"
  by (subst year_loop.simps) simp

text \<open>
  Claim C2. Whenever the year loop runs with a current year below the target year, it
  raises \<open>NotImplementedError\<close> at once, in the state it was entered in. In particular, when
  the widget opens and the year read from its header is below the target year,
  \<open>select_date\<close> raises \<open>NotImplementedError\<close> (logged, raised again); the only click
  delivered is the one that opened the widget: no navigation is attempted and no loop runs.
\<close>

theorem forward_year_raises:
  "(current_year < year \<longrightarrow>
      year_loop b year sx px current_year current_text w = Some (Inl NotImplementedError, w)) \<and>
   (until_visible b (XPath ix) (page w) = Inr inp \<and>
    until_visible b (ClassName cn) (page (opened b ix w)) = Inr c \<and>
    until_visible b (XPath sx) (page (opened b ix w)) = Inr sw \<and>
    header_year (lower (elem_text sw)) = Some cy \<and> cy < year \<longrightarrow>
      select_date b day month year ix cn sx px w =
        Some (Inl NotImplementedError, log_add ErrorSelectDate (opened b ix w)) \<and>
      clicks (opened b ix w) = clicks w @ [XPath ix])"
proof (intro conjI impI)
  assume "current_year < year"
  then show "year_loop b year sx px current_year current_text w = Some (Inl NotImplementedError, w)"
    by (rule year_loop_forward)
next
  assume h: "until_visible b (XPath ix) (page w) = Inr inp \<and>
    until_visible b (ClassName cn) (page (opened b ix w)) = Inr c \<and>
    until_visible b (XPath sx) (page (opened b ix w)) = Inr sw \<and>
    header_year (lower (elem_text sw)) = Some cy \<and> cy < year"
  then obtain g where g: "search_d4 (lower (elem_text sw)) = Some g" "int_of_digits g = cy"
    by (auto simp: header_year_def)
  from h have "year_loop b year sx px cy (lower (elem_text sw)) (opened b ix w) =
      Some (Inl NotImplementedError, opened b ix w)"
    by (intro year_loop_forward) simp
  with h g show "select_date b day month year ix cn sx px w =
        Some (Inl NotImplementedError, log_add ErrorSelectDate (opened b ix w))"
    by (simp add: select_date_def select_date_body_opened [of b ix w inp cn c sx sw])
next
  show "clicks (opened b ix w) = clicks w @ [XPath ix]" by (simp add: opened_def)
qed

text \<open>
  Claim C9. When the widget opens and its header text has no run of four digits, the
  current year is taken to be the target year: \<open>select_date\<close> is month alignment from the
  opened widget followed by the click on the day cell, without any year stepping and
  without an error from the year; its result is the same for every target year.
\<close>

theorem yearless_header_skips_year_alignment:
  assumes "until_visible b (XPath ix) (page w) = Inr inp"
      and "until_visible b (ClassName cn) (page (opened b ix w)) = Inr c"
      and "until_visible b (XPath sx) (page (opened b ix w)) = Inr sw"
      and "search_d4 (lower (elem_text sw)) = None"
  shows "select_date b day month year ix cn sx px w =
     (case month_loop b month sx px (lower (elem_text sw)) (opened b ix w) of
        None \<Rightarrow> None
      | Some (Inl e, w3) \<Rightarrow> Some (Inl e, log_add ErrorSelectDate w3)
      | Some (Inr u, w3) \<Rightarrow>
          (case until_clickable b (XPath (day_xpath day)) (page w3) of
             Inl e \<Rightarrow> Some (Inl e, log_add ErrorSelectDate w3)
           | Inr day_element \<Rightarrow>
               (case click b (XPath (day_xpath day)) w3 of
                  (Inl e, w4) \<Rightarrow> Some (Inl e, log_add ErrorSelectDate w4)
                | (Inr u, w4) \<Rightarrow> Some (Inr (), w4)))) \<and>
     select_date b day month year ix cn sx px w = select_date b day month year' ix cn sx px w"
proof -
  have yl: "\<And>y. year_loop b y sx px y (lower (elem_text sw)) (opened b ix w) =
      Some (Inr (lower (elem_text sw)), opened b ix w)"
    by (subst year_loop.simps) simp
  have body: "\<And>y. select_date_body b day month y ix cn sx px w =
     (case month_loop b month sx px (lower (elem_text sw)) (opened b ix w) of
             None \<Rightarrow> None
           | Some (Inl e, w3) \<Rightarrow> Some (Inl e, w3)
           | Some (Inr u, w3) \<Rightarrow>
               (case until_clickable b (XPath (day_xpath day)) (page w3) of
                  Inl e \<Rightarrow> Some (Inl e, w3)
                | Inr day_element \<Rightarrow> Some (click b (XPath (day_xpath day)) w3)))"
    by (simp add: select_date_body_opened [OF assms(1-3)] assms(4) yl)
  have sd: "\<And>y. select_date b day month y ix cn sx px w =
     (case month_loop b month sx px (lower (elem_text sw)) (opened b ix w) of
        None \<Rightarrow> None
      | Some (Inl e, w3) \<Rightarrow> Some (Inl e, log_add ErrorSelectDate w3)
      | Some (Inr u, w3) \<Rightarrow>
          (case until_clickable b (XPath (day_xpath day)) (page w3) of
             Inl e \<Rightarrow> Some (Inl e, log_add ErrorSelectDate w3)
           | Inr day_element \<Rightarrow>
               (case click b (XPath (day_xpath day)) w3 of
                  (Inl e, w4) \<Rightarrow> Some (Inl e, log_add ErrorSelectDate w4)
                | (Inr u, w4) \<Rightarrow> Some (Inr (), w4))))"
    unfolding select_date_def body
    by (auto split: option.splits sum.splits prod.splits)
  show ?thesis
    using sd [of year] sd [of year'] by simp
qed

theorem forward_year_raises_witness:
  "select_date (static_browser demo_doc) 15 ''febrero'' 2026 default_input_datapicker_xpath
     default_datepicker_container_class_name default_datepicker_switch_xpath
     default_prev_button_xpath (start ()) =
   Some (Inl NotImplementedError,
     \<lparr>page = (), clicks = [XPath default_input_datapicker_xpath], logged = [ErrorSelectDate]\<rparr>) \<and>
   year_loop (static_browser demo_doc) 2026 default_datepicker_switch_xpath
     default_prev_button_xpath 2025 ''febrero 2025'' (start ()) =
   Some (Inl NotImplementedError, start ())"
proof -
  let ?b = "static_browser demo_doc"
  let ?ix = default_input_datapicker_xpath
  let ?sw = "plain_element\<lparr>elem_text := ''Febrero 2025''\<rparr>"
  have o: "opened ?b ?ix (start ()) = \<lparr>page = (), clicks = [XPath ?ix], logged = []\<rparr>"
    by (simp add: opened_def start_def static_browser_def)
  have v1: "until_visible ?b (XPath ?ix) (page (start ())) = Inr plain_element"
    by code_simp
  have v2: "until_visible ?b (ClassName default_datepicker_container_class_name)
              (page (opened ?b ?ix (start ()))) = Inr plain_element"
    unfolding o by code_simp
  have v3: "until_visible ?b (XPath default_datepicker_switch_xpath)
              (page (opened ?b ?ix (start ()))) = Inr ?sw"
    unfolding o by code_simp
  have y: "header_year (lower (elem_text ?sw)) = Some 2025"
    by code_simp
  note th = forward_year_raises [where b = ?b and ix = ?ix and w = "start ()" and inp = plain_element
      and cn = default_datepicker_container_class_name and c = plain_element
      and sx = default_datepicker_switch_xpath and sw = ?sw and cy = 2025 and year = 2026
      and current_year = 2025 and px = default_prev_button_xpath and current_text = "''febrero 2025''"
      and day = 15 and month = "''febrero''"]
  from th have l: "year_loop ?b 2026 default_datepicker_switch_xpath
     default_prev_button_xpath 2025 ''febrero 2025'' (start ()) =
   Some (Inl NotImplementedError, start ())"
    by simp
  from th v1 v2 v3 y have "select_date ?b 15 ''febrero'' 2026 ?ix
     default_datepicker_container_class_name default_datepicker_switch_xpath
     default_prev_button_xpath (start ()) =
        Some (Inl NotImplementedError, log_add ErrorSelectDate (opened ?b ?ix (start ())))"
    by simp
  with l show ?thesis by (simp add: o log_add_def)
qed

theorem yearless_header_skips_year_alignment_witness:
  "select_date (static_browser yearless_doc) 15 ''febrero'' 1999 default_input_datapicker_xpath
     default_datepicker_container_class_name default_datepicker_switch_xpath
     default_prev_button_xpath (start ()) =
   Some (Inr (),
     \<lparr>page = (), clicks = [XPath default_input_datapicker_xpath, XPath (day_xpath 15)],
      logged = []\<rparr>) \<and>
   select_date (static_browser yearless_doc) 15 ''febrero'' 1999 default_input_datapicker_xpath
     default_datepicker_container_class_name default_datepicker_switch_xpath
     default_prev_button_xpath (start ()) =
   select_date (static_browser yearless_doc) 15 ''febrero'' 2031 default_input_datapicker_xpath
     default_datepicker_container_class_name default_datepicker_switch_xpath
     default_prev_button_xpath (start ())"
proof -
  let ?b = "static_browser yearless_doc"
  let ?ix = default_input_datapicker_xpath
  let ?sw = "plain_element\<lparr>elem_text := ''Febrero''\<rparr>"
  let ?w1 = "\<lparr>page = (), clicks = [XPath ?ix], logged = []\<rparr> :: unit world"
  have o: "opened ?b ?ix (start ()) = ?w1"
    by (simp add: opened_def start_def static_browser_def)
  have v1: "until_visible ?b (XPath ?ix) (page (start ())) = Inr plain_element"
    by code_simp
  have v2: "until_visible ?b (ClassName default_datepicker_container_class_name)
              (page (opened ?b ?ix (start ()))) = Inr plain_element"
    unfolding o by code_simp
  have v3: "until_visible ?b (XPath default_datepicker_switch_xpath)
              (page (opened ?b ?ix (start ()))) = Inr ?sw"
    unfolding o by code_simp
  have y: "search_d4 (lower (elem_text ?sw)) = None"
    by code_simp
  have rest: "(case month_loop ?b ''febrero'' default_datepicker_switch_xpath default_prev_button_xpath
                 (lower (elem_text ?sw)) ?w1 of
        None \<Rightarrow> None
      | Some (Inl e, w3) \<Rightarrow> Some (Inl e, log_add ErrorSelectDate w3)
      | Some (Inr u, w3) \<Rightarrow>
          (case until_clickable ?b (XPath (day_xpath 15)) (page w3) of
             Inl e \<Rightarrow> Some (Inl e, log_add ErrorSelectDate w3)
           | Inr day_element \<Rightarrow>
               (case click ?b (XPath (day_xpath 15)) w3 of
                  (Inl e, w4) \<Rightarrow> Some (Inl e, log_add ErrorSelectDate w4)
                | (Inr u, w4) \<Rightarrow> Some (Inr (), w4)))) =
     Some (Inr (),
       \<lparr>page = (), clicks = [XPath default_input_datapicker_xpath, XPath (day_xpath 15)],
        logged = []\<rparr>)"
    by code_simp
  note th = yearless_header_skips_year_alignment [OF v1 v2 v3 y, of 15 "''febrero''" 1999
       default_prev_button_xpath 2031]
  have r1: "select_date ?b 15 ''febrero'' 1999 ?ix
     default_datepicker_container_class_name default_datepicker_switch_xpath
     default_prev_button_xpath (start ()) =
     Some (Inr (),
       \<lparr>page = (), clicks = [XPath default_input_datapicker_xpath, XPath (day_xpath 15)],
        logged = []\<rparr>)"
    by (rule trans [OF th [THEN conjunct1, unfolded o] rest])
  from r1 th [THEN conjunct2] show ?thesis by blast
qed

lemma backward_navigation:
  assumes inp: "until_visible b (XPath ix) (page w) = Inr inp"
      and cont: "until_visible b (ClassName cn) (page (opened b ix w)) = Inr c"
      and hdrs: "\<forall>k\<le>n2. header_after b px sx (page (opened b ix w)) k = Some (hdr k)"
      and prevs: "\<forall>k<n2. prev_clickable b px (page_after b px (page (opened b ix w)) k)"
      and yrs: "\<forall>k\<le>n1. header_year (hdr k) = Some (yr k)"
      and above: "\<forall>k<n1. year < yr k"
      and reached: "yr n1 = year"
      and order: "n1 \<le> n2"
      and others: "\<forall>k. n1 \<le> k \<and> k < n2 \<longrightarrow> \<not> sublist (lower month) (hdr k)"
      and found: "sublist (lower month) (hdr n2)"
      and cell: "until_clickable b (XPath (day_xpath day)) (page_after b px (page (opened b ix w)) n2) = Inr d"
  shows "select_date b day month year ix cn sx px w =
           Some (Inr (),
             \<lparr>page = after_click b (XPath (day_xpath day)) (page_after b px (page (opened b ix w)) n2),
              clicks = clicks w @ [XPath ix] @ replicate n2 (XPath px) @ [XPath (day_xpath day)],
              logged = logged w\<rparr>)"
proof -
  let ?w1 = "opened b ix w"
  from hdrs have h0: "header_after b px sx (page ?w1) 0 = Some (hdr 0)" by simp
  then obtain sw where sw: "until_visible b (XPath sx) (page ?w1) = Inr sw" "lower (elem_text sw) = hdr 0"
    by (auto dest: header_after_0)
  from yrs have y0: "header_year (hdr 0) = Some (yr 0)" by simp
  then have cy: "(case search_d4 (hdr 0) of Some g \<Rightarrow> int_of_digits g | None \<Rightarrow> year) = yr 0"
    by (auto simp: header_year_def)
  let ?w2 = "?w1\<lparr>page := page_after b px (page ?w1) n1, clicks := clicks ?w1 @ replicate n1 (XPath px)\<rparr>"
  have yl: "year_loop b year sx px (yr 0) (hdr 0) ?w1 = Some (Inr (hdr n1), ?w2)"
  proof (rule year_loop_run)
    show "\<forall>k<n1. year < yr k" by (rule above)
    show "yr n1 = year" by (rule reached)
    show "\<forall>k<n1. prev_clickable b px (page_after b px (page ?w1) k)"
      using prevs order by simp
    show "\<forall>k<n1. header_after b px sx (page ?w1) (Suc k) = Some (hdr (Suc k))"
      using hdrs order by simp
    show "\<forall>k<n1. header_year (hdr (Suc k)) = Some (yr (Suc k))"
      using yrs by simp
  qed
  let ?n = "n2 - n1"
  let ?w3 = "?w2\<lparr>page := page_after b px (page ?w2) ?n, clicks := clicks ?w2 @ replicate ?n (XPath px)\<rparr>"
  have ml: "month_loop b month sx px ((\<lambda>k. hdr (n1 + k)) 0) ?w2 = Some (Inr (), ?w3)"
  proof (rule month_loop_run)
    show "\<forall>k<?n. \<not> sublist (lower month) (hdr (n1 + k))"
      using others by simp
    show "sublist (lower month) (hdr (n1 + ?n))"
      using found order by simp
    show "\<forall>k<?n. prev_clickable b px (page_after b px (page ?w2) k)"
      using prevs by (simp add: page_after_add)
    show "\<forall>k<?n. header_after b px sx (page ?w2) (Suc k) = Some (hdr (n1 + Suc k))"
      using hdrs by (simp add: header_after_def page_after_add add.commute)
  qed
  have p3: "page ?w3 = page_after b px (page ?w1) n2"
    using order by (simp add: page_after_add)
  have c3: "clicks ?w3 = clicks w @ [XPath ix] @ replicate n2 (XPath px)"
    using order by (simp add: opened_def replicate_add [symmetric])
  have l3: "logged ?w3 = logged w" by (simp add: opened_def)
  from cell p3 obtain e where e: "locate b (page ?w3) (XPath (day_xpath day)) = Some e" "displayed e"
    by (auto simp: until_clickable_def split: option.splits if_splits)
  have dc: "click b (XPath (day_xpath day)) ?w3 =
      (Inr (), ?w3\<lparr>page := after_click b (XPath (day_xpath day)) (page ?w3),
                    clicks := clicks ?w3 @ [XPath (day_xpath day)]\<rparr>)"
    using e by (simp add: click_def)
  have uc: "until_clickable b (XPath (day_xpath day)) (page ?w3) = Inr d"
    using cell p3 by simp
  have body: "select_date_body b day month year ix cn sx px w =
      Some (Inr (), ?w3\<lparr>page := after_click b (XPath (day_xpath day)) (page ?w3),
                    clicks := clicks ?w3 @ [XPath (day_xpath day)]\<rparr>)"
    unfolding select_date_body_opened [OF inp cont sw(1)] sw(2) cy yl
    using ml uc dc by simp
  have fin: "?w3\<lparr>page := after_click b (XPath (day_xpath day)) (page ?w3),
                    clicks := clicks ?w3 @ [XPath (day_xpath day)]\<rparr> =
        \<lparr>page = after_click b (XPath (day_xpath day)) (page_after b px (page ?w1) n2),
              clicks = clicks w @ [XPath ix] @ replicate n2 (XPath px) @ [XPath (day_xpath day)],
              logged = logged w\<rparr>"
    using p3 c3 l3 by simp
  show ?thesis
    unfolding select_date_def body fin by simp
qed

subsection \<open>Header texts of a calendar\<close>

lemma lower_append: "lower (xs @ ys) = lower xs @ lower ys"
  by (simp add: lower_def)

lemma is_digit_char_of: "d < 10 \<Longrightarrow> is_digit (char_of (48 + d :: nat))"
  by (simp add: is_digit_def)

lemma lower_char_digit: "is_digit c \<Longrightarrow> lower_char c = c"
  by (simp add: is_digit_def lower_char_def Let_def)

lemma digits_of_nat_4:
  assumes "1000 \<le> y" "y \<le> 9999"
  shows "digits_of_nat y =
     [char_of (48 + y div 1000), char_of (48 + y div 100 mod 10),
      char_of (48 + y div 10 mod 10), char_of (48 + y mod 10)]"
proof -
  have a: "digits_of_nat y = digits_of_nat (y div 10) @ [char_of (48 + y mod 10)]"
    using assms by (subst digits_of_nat.simps) simp
  have b: "digits_of_nat (y div 10) = digits_of_nat (y div 100) @ [char_of (48 + y div 10 mod 10)]"
    using assms by (subst digits_of_nat.simps) (simp add: div_mult2_eq [symmetric])
  have c: "digits_of_nat (y div 100) = digits_of_nat (y div 1000) @ [char_of (48 + y div 100 mod 10)]"
    using assms by (subst digits_of_nat.simps) (simp add: div_mult2_eq [symmetric])
  have d: "digits_of_nat (y div 1000) = [char_of (48 + y div 1000)]"
    using assms by (subst digits_of_nat.simps) simp
  show ?thesis by (simp add: a b c d)
qed

lemma digits_of_nat_4_digits:
  assumes "1000 \<le> y" "y \<le> 9999"
  shows "length (digits_of_nat y) = 4 \<and> (\<forall>c \<in> set (digits_of_nat y). is_digit c)"
proof -
  have "y div 1000 < 10" using assms by simp
  then show ?thesis
    by (simp add: digits_of_nat_4 [OF assms] is_digit_char_of)
qed

lemma decimal_4:
  fixes y :: nat
  shows "y div 1000 * 1000 + y div 100 mod 10 * 100 + y div 10 mod 10 * 10 + y mod 10 = y"
proof -
  have a: "y = 10 * (y div 10) + y mod 10" by simp
  have "y div 100 = y div 10 div 10" by (simp add: div_mult2_eq [symmetric])
  then have b: "y div 10 = 10 * (y div 100) + y div 10 mod 10" by simp
  have "y div 1000 = y div 100 div 10" by (simp add: div_mult2_eq [symmetric])
  then have c: "y div 100 = 10 * (y div 1000) + y div 100 mod 10" by simp
  from a b c show ?thesis by linarith
qed

lemma int_of_digits_4:
  assumes "1000 \<le> y" "y \<le> 9999"
  shows "int_of_digits (digits_of_nat y) = int y"
proof -
  have lt: "y div 1000 < 10" using assms by simp
  have "int_of_digits (digits_of_nat y) =
        int (y div 1000 * 1000 + y div 100 mod 10 * 100 + y div 10 mod 10 * 10 + y mod 10)"
    using lt by (simp add: digits_of_nat_4 [OF assms] int_of_digits_def)
  then show ?thesis by (simp only: decimal_4)
qed

lemma search_d4_after_text:
  assumes "\<forall>c \<in> set pre. \<not> is_digit c"
      and "length ds = 4"
      and "\<forall>c \<in> set ds. is_digit c"
  shows "search_d4 (pre @ ds) = Some ds"
  using assms(1)
proof (induction pre)
  case Nil
  from assms(2) obtain a b c d where ds: "ds = [a, b, c, d]"
    by (cases ds; simp; cases "tl ds"; simp; cases "tl (tl ds)"; simp; cases "tl (tl (tl ds))"; simp)
  with assms(3) show ?case by simp
next
  case (Cons x pre)
  from assms(2) have "3 \<le> length (pre @ ds)" by simp
  then obtain b c d rest where r: "pre @ ds = b # c # d # rest"
    by (cases "pre @ ds"; simp; cases "tl (pre @ ds)"; simp; cases "tl (tl (pre @ ds))"; simp)
  have "search_d4 (x # pre @ ds) = search_d4 (pre @ ds)"
    using Cons.prems by (simp add: r)
  with Cons show ?case by simp
qed

lemma sublist_before_digits:
  assumes "needle \<noteq> []"
      and "sep \<notin> set needle"
      and "set needle \<inter> set ds = {}"
  shows "sublist needle (nm @ sep # ds) \<longleftrightarrow> sublist needle nm"
proof
  assume "sublist needle nm"
  then show "sublist needle (nm @ sep # ds)" by (simp add: sublist_append)
next
  assume "sublist needle (nm @ sep # ds)"
  then obtain ps ss where e: "nm @ sep # ds = ps @ needle @ ss"
    by (auto simp: sublist_def)
  show "sublist needle nm"
  proof (cases "length (ps @ needle) \<le> length nm")
    case True
    from e have "take (length (ps @ needle)) (nm @ sep # ds) = ps @ needle" by simp
    with True have "take (length (ps @ needle)) nm = ps @ needle" by simp
    then have "nm = ps @ needle @ drop (length (ps @ needle)) nm"
      by (metis append_assoc append_take_drop_id)
    then show ?thesis by (metis sublist_appendI)
  next
    case False
    then have len: "length nm < length ps + length needle" by simp
    show ?thesis
    proof (cases "length nm < length ps")
      case True
      \<comment> \<open>the needle lies inside the digits\<close>
      from assms(1) obtain x where x: "x \<in> set needle" by (cases needle) auto
      from e have "drop (length nm + 1) (nm @ sep # ds) = drop (length nm + 1) (ps @ needle @ ss)" by simp
      then have "ds = drop (length nm + 1) (ps @ needle @ ss)" by simp
      moreover have "length nm + 1 \<le> length ps" using True by simp
      ultimately have "ds = drop (length nm + 1) ps @ needle @ ss" by simp
      with x assms(3) show ?thesis by auto
    next
      case False
      \<comment> \<open>the needle covers the separator\<close>
      then have i: "length ps \<le> length nm" by simp
      from len i have j: "length nm - length ps < length needle" by linarith
      from e have "(nm @ sep # ds) ! length nm = (ps @ needle @ ss) ! length nm" by simp
      then have "sep = (ps @ needle @ ss) ! length nm" by simp
      also have "\<dots> = (needle @ ss) ! (length nm - length ps)"
        using i by (simp add: nth_append)
      also have "\<dots> = needle ! (length nm - length ps)"
        using j by (simp add: nth_append)
      finally have "sep \<in> set needle" using j by simp
      with assms(2) show ?thesis by simp
    qed
  qed
qed

subsection \<open>The calendar widget\<close>

lemma lower_month_names:
  "map lower month_names =
     [''enero'', ''febrero'', ''marzo'', ''abril'', ''mayo'', ''junio'', ''julio'', ''agosto'',
      ''septiembre'', ''octubre'', ''noviembre'', ''diciembre'']"
  by (simp add: month_names_def lower_def lower_char_def)

lemma month_names_checked:
  "list_all (\<lambda>a. a \<noteq> [] \<and> list_all (\<lambda>c. \<not> is_digit c \<and> c \<noteq> CHR '' '') a \<and>
                 list_all (\<lambda>b. sublist a b = (a = b)) (map lower month_names))
     (map lower month_names)"
  unfolding lower_month_names by (simp add: sublist_code is_digit_def)

lemma length_month_names: "length month_names = 12"
  by (simp add: month_names_def)

lemma distinct_lower_month_names: "distinct (map lower month_names)"
  unfolding lower_month_names by simp

lemma month_names_facts:
  assumes "i < 12"
  shows "lower (month_names ! i) \<noteq> []"
    and "\<forall>c \<in> set (lower (month_names ! i)). \<not> is_digit c"
    and "CHR '' '' \<notin> set (lower (month_names ! i))"
    and "j < 12 \<Longrightarrow> sublist (lower (month_names ! i)) (lower (month_names ! j)) \<longleftrightarrow> i = j"
proof -
  have ni: "lower (month_names ! i) = map lower month_names ! i"
    using assms by (simp add: length_month_names)
  have mem: "map lower month_names ! i \<in> set (map lower month_names)"
    using assms by (intro nth_mem) (simp add: length_month_names)
  note chk = month_names_checked [unfolded list_all_iff, rule_format, OF mem]
  from chk show "lower (month_names ! i) \<noteq> []" by (simp add: ni)
  from chk show "\<forall>c \<in> set (lower (month_names ! i)). \<not> is_digit c"
    by (simp add: ni list_all_iff)
  from chk show "CHR '' '' \<notin> set (lower (month_names ! i))"
    by (auto simp: ni list_all_iff)
  show "sublist (lower (month_names ! i)) (lower (month_names ! j)) \<longleftrightarrow> i = j" if "j < 12"
  proof -
    have nj: "lower (month_names ! j) = map lower month_names ! j"
      using that by (simp add: length_month_names)
    have memj: "map lower month_names ! j \<in> set (map lower month_names)"
      using that by (intro nth_mem) (simp add: length_month_names)
    from chk [THEN conjunct2, THEN conjunct2] memj have "sublist (map lower month_names ! i) (map lower month_names ! j) \<longleftrightarrow>
        map lower month_names ! i = map lower month_names ! j"
      by (rule bspec)
    also have "\<dots> \<longleftrightarrow> i = j"
      using assms that nth_eq_iff_index_eq [OF distinct_lower_month_names, of i j]
      by (simp add: length_month_names)
    finally show ?thesis by (simp add: ni nj)
  qed
qed

lemma calendar_locate:
  "locate calendar_browser ym (XPath default_input_datapicker_xpath) = Some plain_element"
  "locate calendar_browser ym (ClassName default_datepicker_container_class_name) = Some plain_element"
  "locate calendar_browser ym (XPath default_datepicker_switch_xpath) =
     Some (plain_element\<lparr>elem_text := month_names ! (snd ym - 1) @ '' '' @ digits_of_nat (fst ym)\<rparr>)"
  "locate calendar_browser ym (XPath default_prev_button_xpath) = Some plain_element"
  by (cases ym; simp add: calendar_browser_def default_input_datapicker_xpath_def
        default_datepicker_switch_xpath_def default_prev_button_xpath_def)+

lemma calendar_after_click:
  "after_click calendar_browser (XPath default_input_datapicker_xpath) ym = ym"
  "after_click calendar_browser (XPath (day_xpath d)) ym = ym"
  "after_click calendar_browser (XPath default_prev_button_xpath) ym =
     (if snd ym \<le> 1 then (fst ym - 1, 12) else (fst ym, snd ym - 1))"
  by (cases ym; simp add: calendar_browser_def default_input_datapicker_xpath_def
        default_prev_button_xpath_def day_xpath_def)+

lemma day_xpath_distinct:
  "day_xpath d \<noteq> default_input_datapicker_xpath"
  "day_xpath d \<noteq> default_datepicker_switch_xpath"
  "day_xpath d \<noteq> default_prev_button_xpath"
  by (simp_all add: day_xpath_def default_input_datapicker_xpath_def
        default_datepicker_switch_xpath_def default_prev_button_xpath_def)

lemma day_cell_mem:
  assumes "1 \<le> d" "d \<le> 28"
  shows "XPath (day_xpath (int d)) \<in> set day_cells"
proof -
  have "d \<in> set [1..<29]" using assms by simp
  then show ?thesis
    unfolding day_cells_def set_map by (rule image_eqI [where x = d, rotated]) simp
qed

lemma calendar_locate_day:
  assumes "1 \<le> d" "d \<le> 28"
  shows "locate calendar_browser ym (XPath (day_xpath (int d))) = Some plain_element"
  using day_cell_mem [OF assms]
  by (cases ym) (simp add: calendar_browser_def day_xpath_distinct)

lemma prev_month_arith:
  fixes t :: nat
  assumes "1 \<le> t"
  shows "(t - 1) div 12 = (if t mod 12 = 0 then t div 12 - 1 else t div 12)"
    and "(t - 1) mod 12 + 1 = (if t mod 12 = 0 then 12 else t mod 12)"
proof -
  obtain q r where t: "t = 12 * q + r" and r: "r < 12"
    by (metis mod_less_divisor mult_div_mod_eq zero_less_numeral)
  show "(t - 1) div 12 = (if t mod 12 = 0 then t div 12 - 1 else t div 12)"
  proof (cases "r = 0")
    case True
    with t assms obtain q' where q: "q = Suc q'" by (cases q) auto
    have "t - 1 = 12 * q' + 11" using t True q by simp
    then have "(t - 1) div 12 = q'" by simp
    moreover have "t mod 12 = 0" "t div 12 = q" using t True by simp_all
    ultimately show ?thesis using q by simp
  next
    case False
    then have "t - 1 = 12 * q + (r - 1)" using t by simp
    then have "(t - 1) div 12 = q" using r by simp
    moreover have "t mod 12 = r" "t div 12 = q" using t r by simp_all
    ultimately show ?thesis using False by simp
  qed
  show "(t - 1) mod 12 + 1 = (if t mod 12 = 0 then 12 else t mod 12)"
  proof (cases "r = 0")
    case True
    with t assms obtain q' where q: "q = Suc q'" by (cases q) auto
    have "t - 1 = 12 * q' + 11" using t True q by simp
    then have "(t - 1) mod 12 = 11" by simp
    moreover have "t mod 12 = 0" using t True by simp
    ultimately show ?thesis by simp
  next
    case False
    then have "t - 1 = 12 * q + (r - 1)" using t by simp
    then have "(t - 1) mod 12 = r - 1" using r by simp
    moreover have "t mod 12 = r" using t r by simp
    ultimately show ?thesis using False by simp
  qed
qed

lemma months_before_0:
  assumes "1 \<le> m" "m \<le> 12"
  shows "months_before (y, m) 0 = (y, m)"
proof -
  from assms obtain r where r: "m = Suc r" "r < 12" by (cases m) auto
  then show ?thesis by (simp add: months_before_def Let_def)
qed

lemma months_before_Suc:
  assumes "k < 12 * y + (m - 1)"
  shows "after_click calendar_browser (XPath default_prev_button_xpath) (months_before (y, m) k) =
         months_before (y, m) (Suc k)"
proof -
  let ?t = "12 * y + (m - 1) - k"
  have t: "1 \<le> ?t" using assms by simp
  have e: "12 * y + (m - 1) - Suc k = ?t - 1" by simp
  show ?thesis
    unfolding months_before_def Let_def e calendar_after_click fst_conv snd_conv
    using prev_month_arith [OF t] by (simp split: if_splits)
qed

lemma calendar_page_after:
  assumes "1 \<le> m" "m \<le> 12" "k \<le> 12 * y + (m - 1)"
  shows "page_after calendar_browser default_prev_button_xpath (y, m) k = months_before (y, m) k"
  using assms(3)
proof (induction k)
  case 0
  show ?case using assms(1,2) by (simp add: page_after_0 months_before_0)
next
  case (Suc k)
  then have "page_after calendar_browser default_prev_button_xpath (y, m) k = months_before (y, m) k"
    by simp
  moreover have "page_after calendar_browser default_prev_button_xpath (y, m) (Suc k) =
      after_click calendar_browser (XPath default_prev_button_xpath)
        (page_after calendar_browser default_prev_button_xpath (y, m) k)"
    by (simp add: page_after_def)
  ultimately show ?case using Suc.prems by (simp add: months_before_Suc)
qed

lemma lower_digits:
  assumes "1000 \<le> y" "y \<le> 9999"
  shows "lower (digits_of_nat y) = digits_of_nat y"
  unfolding lower_def
  using digits_of_nat_4_digits [OF assms] by (intro map_idI) (simp add: lower_char_digit)

lemma calendar_header_eq:
  assumes "1000 \<le> y" "y \<le> 9999"
  shows "calendar_header (y, m) = lower (month_names ! (m - 1)) @ CHR '' '' # digits_of_nat y"
proof -
  have sp: "lower (CHR '' '' # digits_of_nat y) = CHR '' '' # lower (digits_of_nat y)"
    by (simp add: lower_def lower_char_def)
  show ?thesis
    by (simp add: calendar_header_def lower_append lower_digits [OF assms] sp)
qed

lemma space_not_digit: "\<not> is_digit CHR '' ''"
  by (simp add: is_digit_def)

lemma calendar_header_year:
  assumes "1 \<le> m" "m \<le> 12" "1000 \<le> y" "y \<le> 9999"
  shows "header_year (calendar_header (y, m)) = Some (int y)"
proof -
  have i: "m - 1 < 12" using assms by simp
  have "search_d4 ((lower (month_names ! (m - 1)) @ [CHR '' '']) @ digits_of_nat y) = Some (digits_of_nat y)"
    using month_names_facts(2) [OF i] digits_of_nat_4_digits [OF assms(3,4)]
    by (intro search_d4_after_text) (auto simp: space_not_digit)
  then show ?thesis
    by (simp add: header_year_def calendar_header_eq [OF assms(3,4)] int_of_digits_4 [OF assms(3,4)])
qed

lemma calendar_header_month:
  assumes "1 \<le> m" "m \<le> 12" "1 \<le> m'" "m' \<le> 12" "1000 \<le> y" "y \<le> 9999"
  shows "sublist (lower (month_names ! (m - 1))) (calendar_header (y, m')) \<longleftrightarrow> m' = m"
proof -
  have i: "m - 1 < 12" and j: "m' - 1 < 12" using assms by simp_all
  have disj: "set (lower (month_names ! (m - 1))) \<inter> set (digits_of_nat y) = {}"
    using month_names_facts(2) [OF i] digits_of_nat_4_digits [OF assms(5,6)] by auto
  have "sublist (lower (month_names ! (m - 1))) (calendar_header (y, m')) \<longleftrightarrow>
        sublist (lower (month_names ! (m - 1))) (lower (month_names ! (m' - 1)))"
    unfolding calendar_header_eq [OF assms(5,6)]
    by (rule sublist_before_digits [OF month_names_facts(1) [OF i] month_names_facts(3) [OF i] disj])
  also have "\<dots> \<longleftrightarrow> m - 1 = m' - 1"
    by (rule month_names_facts(4) [OF i j])
  also have "\<dots> \<longleftrightarrow> m' = m" using assms by auto
  finally show ?thesis .
qed

lemma calendar_header_after:
  assumes "1 \<le> m" "m \<le> 12" "k \<le> 12 * y + (m - 1)"
  shows "header_after calendar_browser default_prev_button_xpath default_datepicker_switch_xpath (y, m) k =
           Some (calendar_header (months_before (y, m) k))"
  by (simp add: header_after_def calendar_page_after [OF assms] until_visible_def calendar_locate
        calendar_header_def plain_element_def)

lemma calendar_prev_clickable:
  "prev_clickable calendar_browser default_prev_button_xpath ym"
  by (simp add: prev_clickable_def calendar_locate plain_element_def)

lemma div12_bounds:
  fixes u :: nat
  assumes "12 * q \<le> u" "u < 12 * q + 12"
  shows "u div 12 = q" and "u mod 12 = u - 12 * q"
proof -
  from assms have e: "u = 12 * q + (u - 12 * q)" and r: "u - 12 * q < 12" by simp_all
  show "u div 12 = q" by (subst e) (use r in simp)
  show "u mod 12 = u - 12 * q" by (subst e) (use r in simp)
qed

lemma div12_lower:
  fixes u :: nat
  assumes "12 * q \<le> u"
  shows "q \<le> u div 12"
proof -
  from assms have "12 * q div 12 \<le> u div 12" by (rule div_le_mono)
  then show ?thesis by simp
qed

lemma div12_upper:
  fixes u :: nat
  assumes "u \<le> 12 * q + 11"
  shows "u div 12 \<le> q"
proof -
  from assms have "u div 12 \<le> (12 * q + 11) div 12" by (rule div_le_mono)
  then show ?thesis by simp
qed

lemma months_before_parts:
  "fst (months_before (y, m) k) = (12 * y + (m - 1) - k) div 12"
  "snd (months_before (y, m) k) = (12 * y + (m - 1) - k) mod 12 + 1"
  by (simp_all add: months_before_def Let_def)

lemma calendar_opened:
  "opened calendar_browser default_input_datapicker_xpath (start ym) =
     \<lparr>page = ym, clicks = [XPath default_input_datapicker_xpath], logged = []\<rparr>"
  by (simp add: opened_def start_def calendar_after_click)

lemma calendar_navigation:
  assumes cm: "1 \<le> cm" "cm \<le> 12"
      and m: "1 \<le> m" "m \<le> 12"
      and y: "1000 \<le> y"
      and cy: "cy \<le> 9999"
      and reach: "12 * y + m \<le> 12 * cy + cm"
      and day: "1 \<le> day" "day \<le> 28"
      and mon: "lower month = lower (month_names ! (m - 1))"
  shows "select_date calendar_browser (int day) month (int y) default_input_datapicker_xpath
           default_datepicker_container_class_name default_datepicker_switch_xpath
           default_prev_button_xpath (start (cy, cm)) =
         Some (Inr (),
           \<lparr>page = (y, m),
            clicks = [XPath default_input_datapicker_xpath] @
                     replicate (12 * cy + cm - (12 * y + m)) (XPath default_prev_button_xpath) @
                     [XPath (day_xpath (int day))],
            logged = []\<rparr>)"
proof -
  let ?b = calendar_browser
  let ?ix = default_input_datapicker_xpath
  let ?px = default_prev_button_xpath
  let ?sx = default_datepicker_switch_xpath
  let ?w = "start (cy, cm) :: (nat \<times> nat) world"
  define T where "T = 12 * cy + (cm - 1)"
  define n2 where "n2 = 12 * cy + cm - (12 * y + m)"
  define n1 where "n1 = (if y < cy then 12 * cy + cm - 12 * y - 12 else 0)"
  define hdr where "hdr k = calendar_header (months_before (cy, cm) k)" for k
  define yr where "yr k = int (fst (months_before (cy, cm) k))" for k
  have ycy: "y \<le> cy" using reach m cm by linarith
  have n2T: "n2 \<le> T" unfolding n2_def T_def using m cm by linarith
  have tn2: "T - n2 = 12 * y + (m - 1)" unfolding n2_def T_def using reach m cm by linarith
  have n12: "n1 \<le> n2"
  proof (cases "y < cy")
    case True
    have "12 * cy + cm - (12 * y + 12) \<le> 12 * cy + cm - (12 * y + m)"
      using m by (intro diff_le_mono2) simp
    with True show ?thesis by (simp add: n1_def n2_def)
  next
    case False
    then show ?thesis by (simp add: n1_def)
  qed
  have tn1: "y < cy \<Longrightarrow> T - n1 = 12 * y + 11" unfolding n1_def T_def using cm by simp
  have pg: "\<And>k. k \<le> n2 \<Longrightarrow> page_after ?b ?px (cy, cm) k = months_before (cy, cm) k"
    using n2T cm by (intro calendar_page_after) (simp_all add: T_def)
  have fstk: "\<And>k. fst (months_before (cy, cm) k) = (T - k) div 12"
    and sndk: "\<And>k. snd (months_before (cy, cm) k) = (T - k) mod 12 + 1"
    by (simp_all add: months_before_parts T_def)
  have range: "y \<le> fst (months_before (cy, cm) k) \<and> fst (months_before (cy, cm) k) \<le> cy"
    if "k \<le> n2" for k
  proof -
    have "12 * y \<le> T - k" using that tn2 by linarith
    then have a: "y \<le> (T - k) div 12" by (rule div12_lower)
    have "T - k \<le> 12 * cy + 11" unfolding T_def using cm by linarith
    then have "(T - k) div 12 \<le> cy" by (rule div12_upper)
    with a show ?thesis by (simp add: fstk)
  qed
  have valid: "1 \<le> snd (months_before (cy, cm) k) \<and> snd (months_before (cy, cm) k) \<le> 12" for k
    by (simp add: sndk Suc_leI)
  have target: "months_before (cy, cm) n2 = (y, m)"
  proof -
    have b1: "12 * y \<le> T - n2" "T - n2 < 12 * y + 12" using tn2 m by linarith+
    from div12_bounds [OF b1] tn2 m show ?thesis
      by (simp add: prod_eq_iff fstk sndk)
  qed
  have hy: "header_year (hdr k) = Some (yr k)" if "k \<le> n2" for k
  proof -
    obtain y' m' where ym: "months_before (cy, cm) k = (y', m')" by (cases "months_before (cy, cm) k")
    with range [OF that] valid [of k] y cy show ?thesis
      by (simp add: hdr_def yr_def calendar_header_year)
  qed
  have inp: "until_visible ?b (XPath ?ix) (page ?w) = Inr plain_element"
    by (simp add: until_visible_def calendar_locate plain_element_def)
  have cont: "until_visible ?b (ClassName default_datepicker_container_class_name)
                (page (opened ?b ?ix ?w)) = Inr plain_element"
    by (simp add: until_visible_def calendar_locate plain_element_def)
  have hdrs: "\<forall>k\<le>n2. header_after ?b ?px ?sx (page (opened ?b ?ix ?w)) k = Some (hdr k)"
    using n2T cm by (simp add: calendar_opened hdr_def calendar_header_after T_def)
  have prevs: "\<forall>k<n2. prev_clickable ?b ?px (page_after ?b ?px (page (opened ?b ?ix ?w)) k)"
    by (simp add: calendar_prev_clickable)
  have yrs: "\<forall>k\<le>n1. header_year (hdr k) = Some (yr k)"
    using hy n12 by simp
  have above: "\<forall>k<n1. int y < yr k"
  proof (intro allI impI)
    fix k assume k: "k < n1"
    then have lt: "y < cy" by (simp add: n1_def split: if_splits)
    from tn1 [OF lt] have "T = n1 + (12 * y + 11)" by simp
    with k have "12 * (y + 1) \<le> T - k" by simp
    then have "y + 1 \<le> (T - k) div 12" by (rule div12_lower)
    then show "int y < yr k" by (simp add: yr_def fstk)
  qed
  have reached: "yr n1 = int y"
  proof (cases "y < cy")
    case True
    have "12 * y \<le> T - n1" "T - n1 < 12 * y + 12" using tn1 [OF True] by simp_all
    from div12_bounds(1) [OF this] show ?thesis by (simp add: yr_def fstk)
  next
    case False
    with ycy have e: "cy = y" "n1 = 0" by (simp_all add: n1_def)
    have "12 * y \<le> T" "T < 12 * y + 12" using e cm by (simp_all add: T_def)
    from div12_bounds(1) [OF this] have "T div 12 = y" .
    with fstk [of 0] e(2) show ?thesis by (simp add: yr_def)
  qed
  have others: "\<forall>k. n1 \<le> k \<and> k < n2 \<longrightarrow> \<not> sublist (lower month) (hdr k)"
  proof (intro allI impI)
    fix k assume k: "n1 \<le> k \<and> k < n2"
    have lo: "12 * y + (m - 1) < T - k" using k tn2 n2T by linarith
    have hi: "T - k < 12 * y + 12"
    proof (cases "y < cy")
      case True
      from tn1 [OF True] have "T = n1 + (12 * y + 11)" by simp
      with k show ?thesis by linarith
    next
      case False
      with ycy have "cy = y" by simp
      then show ?thesis using cm by (simp add: T_def)
    qed
    have b1: "12 * y \<le> T - k" using lo by linarith
    note dm = div12_bounds [OF b1 hi]
    have s: "snd (months_before (cy, cm) k) \<noteq> m"
      using lo dm(2) m by (simp add: sndk)
    have f: "fst (months_before (cy, cm) k) = y" using dm(1) by (simp add: fstk)
    obtain y' m' where ym: "months_before (cy, cm) k = (y', m')" by (cases "months_before (cy, cm) k")
    with s f valid [of k] have v: "y' = y" "m' \<noteq> m" "1 \<le> m'" "m' \<le> 12" by simp_all
    have "\<not> sublist (lower (month_names ! (m - 1))) (calendar_header (y, m'))"
      using calendar_header_month [OF m v(3,4) y, of ] v(2) ycy cy by simp
    then show "\<not> sublist (lower month) (hdr k)"
      by (simp add: hdr_def ym v(1) mon)
  qed
  have found: "sublist (lower month) (hdr n2)"
    using calendar_header_month [OF m m y] ycy cy by (simp add: hdr_def target mon)
  have cell: "until_clickable ?b (XPath (day_xpath (int day)))
                (page_after ?b ?px (page (opened ?b ?ix ?w)) n2) = Inr plain_element"
    by (simp add: until_clickable_def calendar_locate_day [OF day] plain_element_def)
  have fin: "after_click ?b (XPath (day_xpath (int day)))
               (page_after ?b ?px (page (opened ?b ?ix ?w)) n2) = (y, m)"
    by (simp add: calendar_after_click calendar_opened pg target)
  note nav = backward_navigation [OF inp cont hdrs prevs yrs above reached n12 others found cell]
  show ?thesis
    unfolding nav fin by (simp add: start_def n2_def)
qed

text \<open>
  Claim C3 (as amended). Let the calendar show the month \<open>cm\<close> of the year \<open>cy\<close>, and let
  the target month \<open>m\<close> of the year \<open>y\<close> be that month or an earlier one (years of four
  digits, the month given by its name in any letter case, a day whose cell the month
  shows). Then \<open>select_date\<close> returns normally: it opens the widget, clicks the previous
  control exactly once per month between the target and the month on display,
  \<open>12 * (cy - y) + cm - m\<close> times, and then clicks the day cell, with the calendar on the
  target month. The number of clicks is fixed by the target; the code has no cap on it.
\<close>

theorem backward_navigation_terminates:
  assumes "1 \<le> cm" and "cm \<le> 12" and "1 \<le> m" and "m \<le> 12"
      and "1000 \<le> y" and "cy \<le> 9999"
      and "y < cy \<or> (y = cy \<and> m \<le> cm)"
      and "1 \<le> day" and "day \<le> 28"
      and "lower month = lower (month_names ! (m - 1))"
  shows "\<exists>w'. select_date calendar_browser (int day) month (int y) default_input_datapicker_xpath
                default_datepicker_container_class_name default_datepicker_switch_xpath
                default_prev_button_xpath (start (cy, cm)) = Some (Inr (), w') \<and>
              page w' = (y, m) \<and>
              clicks w' = [XPath default_input_datapicker_xpath] @
                          replicate (12 * (cy - y) + cm - m) (XPath default_prev_button_xpath) @
                          [XPath (day_xpath (int day))]"
proof -
  from assms(7) have reach: "12 * y + m \<le> 12 * cy + cm"
  proof
    assume "y < cy"
    then have "12 * y + 12 \<le> 12 * cy" by simp
    with assms(4) show ?thesis by linarith
  next
    assume "y = cy \<and> m \<le> cm"
    then show ?thesis by simp
  qed
  from assms(7) have "y \<le> cy" by auto
  then have n: "12 * cy + cm - (12 * y + m) = 12 * (cy - y) + cm - m"
    by (simp add: diff_mult_distrib2)
  note nav = calendar_navigation [OF assms(1-6) reach assms(8-10)]
  show ?thesis
    unfolding nav n by simp
qed

theorem backward_navigation_terminates_witness:
  "\<exists>w'. select_date calendar_browser 15 ''Noviembre'' 2024 default_input_datapicker_xpath
          default_datepicker_container_class_name default_datepicker_switch_xpath
          default_prev_button_xpath (start (2025, 1)) = Some (Inr (), w') \<and>
        page w' = (2024, 11) \<and>
        clicks w' = [XPath default_input_datapicker_xpath, XPath default_prev_button_xpath,
                     XPath default_prev_button_xpath, XPath (day_xpath 15)]"
proof -
  have mon: "lower ''Noviembre'' = lower (month_names ! (11 - 1))"
    by (simp add: month_names_def)
  have n: "replicate (12 * (2025 - 2024) + 1 - 11) (XPath default_prev_button_xpath) =
      [XPath default_prev_button_xpath, XPath default_prev_button_xpath]"
    by (simp add: numeral_2_eq_2)
  show ?thesis
    using backward_navigation_terminates [of 1 11 2024 2025 15 "''Noviembre''", OF _ _ _ _ _ _ _ _ _ mon]
    unfolding n by simp
qed

text \<open>
  Claim C3 as stated fails: no iteration cap limits the navigation. With the calendar on
  January 2025 and the target 1 December 2004, which only backward steps reach,
  \<open>select_date\<close> clicks the previous control 241 times before it clicks the day cell, more
  than the cap of 240 steps that the specification proposes.
\<close>

theorem no_iteration_cap_counterexample:
  "select_date calendar_browser 1 ''diciembre'' 2004 default_input_datapicker_xpath
     default_datepicker_container_class_name default_datepicker_switch_xpath
     default_prev_button_xpath (start (2025, 1)) =
   Some (Inr (),
     \<lparr>page = (2004, 12),
      clicks = [XPath default_input_datapicker_xpath] @
               replicate 241 (XPath default_prev_button_xpath) @ [XPath (day_xpath 1)],
      logged = []\<rparr>) \<and>
   (240 :: nat) < 241"
proof -
  have mon: "lower ''diciembre'' = lower (month_names ! (12 - 1))"
    by (simp add: month_names_def lower_def lower_char_def)
  have n: "12 * 2025 + 1 - (12 * 2004 + 12) = (241 :: nat)" by simp
  have "select_date calendar_browser (int 1) ''diciembre'' (int 2004) default_input_datapicker_xpath
     default_datepicker_container_class_name default_datepicker_switch_xpath
     default_prev_button_xpath (start (2025, 1)) =
   Some (Inr (),
     \<lparr>page = (2004, 12),
      clicks = [XPath default_input_datapicker_xpath] @
               replicate (12 * 2025 + 1 - (12 * 2004 + 12)) (XPath default_prev_button_xpath) @
               [XPath (day_xpath (int 1))],
      logged = []\<rparr>)"
    by (rule calendar_navigation [OF _ _ _ _ _ _ _ _ _ mon]) simp_all
  then show ?thesis unfolding n by simp
qed

subsection \<open>The table step of select_data\<close>

text \<open>
  Claim C1 fails on the code. On a result page whose table is present at
  \<open>config.table_xpath\<close> and which has no next-page control (a one-page table),
  \<open>select_data\<close> raises \<open>TimeoutException\<close> in the table step: it waits for the presence of
  \<open>config.pagination_next_xpath\<close> as the table. With each locator in its intended role the
  same page yields its headers and its two rows.
\<close>

theorem select_data_swaps_locators:
  "select_data (static_browser demo_doc) demo_service (start ()) =
     Some (Inl TimeoutException,
       \<lparr>page = (),
        clicks = [XPath ''//button[1]'', XPath default_input_datapicker_xpath, XPath (day_xpath 15),
                  XPath ''//label[1]'', XPath ''//label[2]'', XPath ''//label[3]'',
                  XPath ''//button[2]''],
        logged = [WarnElementXPath ''UP1 INV9.9-99'', WarnParameterXPath ''POTENCIA'',
                  ErrorSelectData]\<rparr>) \<and>
   until_presence (static_browser demo_doc) (XPath (cfg_table_xpath (config demo_service))) () =
     Inr demo_table \<and>
   until_presence (static_browser demo_doc) (XPath (cfg_pagination_next_xpath (config demo_service))) () =
     Inl TimeoutException \<and>
   extract_table (static_browser demo_doc) (cfg_pagination_next_xpath (config demo_service))
       (cfg_table_xpath (config demo_service)) (start ()) =
     Some (Inr ([''Fecha'', ''Equipo'', ''Potencia''],
                [[''01/02/2025'', ''a'', ''10''], [''02/02/2025'', ''b'', ''12'']]), start ())"
  by code_simp

end
